theory Spec2Isabelle
  imports Main "HOL-Library.Word" "HOL-Library.Multiset"
begin

unbundle bit_operations_syntax

section \<open>Data model of \<open>annotate-delimiters.js\<close>\<close>

text \<open>
  A JavaScript string is a sequence of UTF-16 code units; \<open>content[i]\<close> is the string made
  of the single code unit at index \<open>i\<close>. The keys of \<open>cfg.symbols\<close> are strings of any length,
  so the symbol map is keyed by code-unit lists and the scanner looks up the one-element
  key \<open>[ch]\<close>.
\<close>

type_synonym cu = "16 word"

text \<open>
  A color held by a region: a string, or \<open>undefined\<close> (what \<open>arr[idx]\<close> yields in JavaScript
  when \<open>idx\<close> is not an index of \<open>arr\<close>).
\<close>

datatype js_color = Str string | Undefined

text \<open>
  The value stored under a key of \<open>cfg.symbols\<close>. \<open>Falsy\<close> stands for the values that
  \<open>!spec\<close> rejects (\<open>null\<close>, \<open>false\<close>, \<open>0\<close>, the empty string). Every other value is read
  through its \<open>kind\<close> and \<open>color\<close> properties only; a property that is absent, and a
  \<open>kind\<close> that is not a string, is \<open>None\<close>. Colors, in a specification and in the palette,
  are strings.
\<close>

record symbol_spec =
  kind :: "string option"
  spec_color :: "string option"

datatype spec_value = Falsy | Spec symbol_spec

type_synonym symbol_map = "cu list \<rightharpoonup> spec_value"

record config =
  symbols :: "symbol_map option"

record position =
  line :: nat
  col :: nat
  index :: nat

text \<open>An entry of \<open>stack\<close>: \<open>{ symbol, color, start }\<close>.\<close>

record open_region =
  o_symbol :: cu
  o_color :: js_color
  o_start :: position

text \<open>
  An entry of \<open>ranges\<close>: \<open>{ symbol, color, start, end }\<close>, with \<open>open: true\<close> on the entries
  pushed by the end-of-input loop. \<open>is_open\<close> is \<open>True\<close> when the \<open>open\<close> property is
  present and \<open>False\<close> when the object has no such property.
\<close>

record ann_range =
  symbol :: cu
  color :: js_color
  start :: position
  end_pos :: position
  is_open :: bool

text \<open>
  The local variables of \<open>annotate\<close>. The head of \<open>stack\<close> is the top of the JavaScript
  array (its last element); \<open>ranges\<close> grows at its end, as \<open>ranges.push\<close> does. \<open>rng_t\<close> is
  the variable \<open>t\<close> captured by the closure that \<open>mulberry32\<close> returns.
\<close>

record scan_state =
  s_line :: nat
  s_col :: nat
  stack :: "open_region list"
  ranges :: "ann_range list"
  usedColors :: "js_color set"
  rng_t :: nat

section \<open>The seeded generator\<close>

text \<open>
  \<open>t\<close> is a JavaScript number, and \<open>t += 0x6D2B79F5\<close> is an addition of doubles: the sum is
  exact below \<open>2^53\<close> and rounded to 53 significant bits (ties to even) above.
  \<open>round53\<close> is that rounding on a natural number.
\<close>

fun bitlen :: "nat \<Rightarrow> nat" where
  "bitlen n = (if n = 0 then 0 else Suc (bitlen (n div 2)))"

declare bitlen.simps [simp del]

definition round53 :: "nat \<Rightarrow> nat" where
  "round53 x =
     (if x < 2 ^ 53 then x
      else let e = bitlen x - 53;
               q = x div 2 ^ e;
               r = x mod 2 ^ e;
               half = 2 ^ (e - 1)
           in if r > half \<or> (r = half \<and> odd q) then (q + 1) * 2 ^ e else q * 2 ^ e)"

text \<open>
  One call of the closure: the new \<open>t\<close> and the unsigned 32-bit numerator \<open>n\<close> of the
  returned double \<open>n / 4294967296\<close>. The bitwise operators and \<open>Math.imul\<close> read their
  operands modulo \<open>2^32\<close>, so they are operations of 32-bit words; \<open>>>>\<close> is the logical
  shift.
\<close>

definition mulberry32_step :: "nat \<Rightarrow> nat \<times> nat" where
  "mulberry32_step t0 =
     (let t = round53 (t0 + 0x6D2B79F5);
          tw = (word_of_nat t :: 32 word);
          r1 = (tw XOR drop_bit 15 tw) * (1 OR tw);
          r2 = r1 XOR (r1 + (r1 XOR drop_bit 7 r1) * (61 OR r1))
      in (t, unat (r2 XOR drop_bit 14 r2)))"

text \<open>
  \<open>mulberry32(seed)\<close>: the initial \<open>t = seed >>> 0\<close>. The seed that \<open>main\<close> passes is an
  integer (\<open>parseInt(...) || 0\<close>, and 0 when it is not finite), and \<open>>>> 0\<close> reduces an
  integer modulo \<open>2^32\<close>.
\<close>

definition mulberry32 :: "int \<Rightarrow> nat" where
  "mulberry32 seed = unat (word_of_int seed :: 32 word)"

section \<open>Configuration defaults\<close>

definition defaultPalette :: "string list" where
  "defaultPalette =
     [''#FF6B6B'', ''#FFD166'', ''#6ED796'', ''#64D6E2'', ''#89B4FA'', ''#C792EA'',
      ''#F9E2AF'', ''#A6E3A1'', ''#F38BA8'', ''#74C7EC'', ''#FAB387'', ''#B4BEFE'']"

text \<open>The code units of the three default delimiters and of the line feed.\<close>

definition TRIANGLE :: cu where "TRIANGLE = 0x25B3"
definition SQUARE :: cu where "SQUARE = 0x25A2"
definition CIRCLE :: cu where "CIRCLE = 0x25CB"
definition NEWLINE :: cu where "NEWLINE = 0x0A"

definition buildDefaultConfig :: config where
  "buildDefaultConfig =
     \<lparr> symbols = Some
         [ [TRIANGLE] \<mapsto> Spec \<lparr> kind = Some ''onoff'', spec_color = Some ''#FFE26A'' \<rparr>,
           [SQUARE] \<mapsto> Spec \<lparr> kind = Some ''random'', spec_color = None \<rparr>,
           [CIRCLE] \<mapsto> Spec \<lparr> kind = Some ''random'', spec_color = None \<rparr> ] \<rparr>"

section \<open>Color resolution\<close>

text \<open>
  \<open>pickColor(rand, palette, usedSet)\<close>. With an empty palette it returns the fallback
  without calling \<open>rand\<close> and without touching \<open>usedSet\<close>. Otherwise
  \<open>Math.floor(rand() * arr.length)\<close> multiplies two doubles: the product of \<open>n / 2^32\<close> and
  the length is rounded to 53 significant bits before the floor.
\<close>

definition pickColor :: "nat \<Rightarrow> string list \<Rightarrow> js_color set \<Rightarrow> js_color \<times> js_color set \<times> nat" where
  "pickColor t0 palette usedSet =
     (if palette = [] then (Str ''#CCCCCC'', usedSet, t0)
      else let unused = filter (\<lambda>c. Str c \<notin> usedSet) palette;
               arr = (if unused \<noteq> [] then unused else palette);
               (t, n) = mulberry32_step t0;
               idx = round53 (n * length arr) div 2 ^ 32;
               color = (if idx < length arr then Str (arr ! idx) else Undefined)
           in (color, insert color usedSet, t))"

text \<open>\<open>spec.color || '#CCCCCC'\<close>: an absent or empty color is falsy.\<close>

definition color_or_default :: "string option \<Rightarrow> string" where
  "color_or_default c = (case c of None \<Rightarrow> ''#CCCCCC'' | Some s \<Rightarrow> if s = [] then ''#CCCCCC'' else s)"

section \<open>The scan\<close>

definition cursor :: "scan_state \<Rightarrow> nat \<Rightarrow> position" where
  "cursor st i = \<lparr> line = s_line st, col = s_col st, index = i \<rparr>"

text \<open>The \<open>// close\<close> branch: pop the top entry and push the finished range.\<close>

definition close_top :: "nat \<Rightarrow> cu \<Rightarrow> open_region \<Rightarrow> open_region list \<Rightarrow> scan_state \<Rightarrow> scan_state" where
  "close_top i ch opn rest st =
     st \<lparr> stack := rest,
          ranges := ranges st @
            [\<lparr> symbol = ch, color = o_color opn, start = o_start opn,
               end_pos = cursor st i, is_open = False \<rparr>] \<rparr>"

text \<open>
  The color of a region being opened, by \<open>spec.kind\<close>, with the \<open>usedColors\<close> set and the
  generator state after the resolution.
\<close>

definition resolve_color :: "string list \<Rightarrow> symbol_spec \<Rightarrow> scan_state \<Rightarrow> js_color \<times> js_color set \<times> nat" where
  "resolve_color palette sp st =
     (if kind sp = Some ''onoff'' then
        (let c = Str (color_or_default (spec_color sp))
         in (c, insert c (usedColors st), rng_t st))
      else if kind sp = Some ''random'' then
        pickColor (rng_t st) palette (usedColors st)
      else (Str ''#CCCCCC'', usedColors st, rng_t st))"

text \<open>The \<open>// open\<close> branch: resolve the color and push a stack entry.\<close>

definition open_new :: "string list \<Rightarrow> nat \<Rightarrow> cu \<Rightarrow> symbol_spec \<Rightarrow> scan_state \<Rightarrow> scan_state" where
  "open_new palette i ch sp st =
     (let (c, used, t) = resolve_color palette sp st
      in st \<lparr> stack := \<lparr> o_symbol = ch, o_color = c, o_start = cursor st i \<rparr> # stack st,
              usedColors := used,
              rng_t := t \<rparr>)"

text \<open>
  The body of the \<open>for\<close> loop at index \<open>i\<close> with \<open>ch = content[i]\<close>. A key whose value is
  falsy leaves through the first \<open>continue\<close>, before \<open>col += 1\<close>.
\<close>

definition body :: "symbol_map \<Rightarrow> string list \<Rightarrow> nat \<Rightarrow> cu \<Rightarrow> scan_state \<Rightarrow> scan_state" where
  "body symbolMap palette i ch st =
     (case symbolMap [ch] of
        Some Falsy \<Rightarrow> st
      | Some (Spec sp) \<Rightarrow>
          (let st' =
                 (case stack st of
                    [] \<Rightarrow> open_new palette i ch sp st
                  | top_entry # rest \<Rightarrow>
                      if o_symbol top_entry = ch then close_top i ch top_entry rest st
                      else open_new palette i ch sp st)
           in st' \<lparr> s_col := s_col st' + 1 \<rparr>)
      | None \<Rightarrow>
          if ch = NEWLINE then st \<lparr> s_line := s_line st + 1, s_col := 0 \<rparr>
          else st \<lparr> s_col := s_col st + 1 \<rparr>)"

text \<open>The \<open>for\<close> loop from index \<open>i\<close> over the rest of the content.\<close>

fun scan :: "symbol_map \<Rightarrow> string list \<Rightarrow> nat \<Rightarrow> cu list \<Rightarrow> scan_state \<Rightarrow> scan_state" where
  "scan symbolMap palette i [] st = st"
| "scan symbolMap palette i (ch # rest) st =
     scan symbolMap palette (Suc i) rest (body symbolMap palette i ch st)"

text \<open>The \<open>while (stack.length)\<close> loop after the scan.\<close>

definition eof_range :: "position \<Rightarrow> open_region \<Rightarrow> ann_range" where
  "eof_range eofPos opn =
     \<lparr> symbol = o_symbol opn, color = o_color opn, start = o_start opn,
       end_pos = eofPos, is_open = True \<rparr>"

fun drain :: "position \<Rightarrow> open_region list \<Rightarrow> ann_range list \<Rightarrow> ann_range list" where
  "drain eofPos [] rs = rs"
| "drain eofPos (opn # rest) rs = drain eofPos rest (rs @ [eof_range eofPos opn])"

definition init_state :: "int \<Rightarrow> scan_state" where
  "init_state seed =
     \<lparr> s_line = 0, s_col = 0, stack = [], ranges = [], usedColors = {},
       rng_t = mulberry32 seed \<rparr>"

definition symbols_of :: "config \<Rightarrow> symbol_map" where
  "symbols_of cfg = (case symbols cfg of None \<Rightarrow> Map.empty | Some m \<Rightarrow> m)"

definition final_state :: "cu list \<Rightarrow> config \<Rightarrow> string list \<Rightarrow> int \<Rightarrow> scan_state" where
  "final_state content cfg palette seed =
     scan (symbols_of cfg) palette 0 content (init_state seed)"

definition annotate :: "cu list \<Rightarrow> config \<Rightarrow> string list \<Rightarrow> int \<Rightarrow> ann_range list" where
  "annotate content cfg palette seed =
     (let st = final_state content cfg palette seed;
          eofPos = cursor st (length content)
      in drain eofPos (stack st) (ranges st))"

section \<open>Observations of a run\<close>

text \<open>
  The condition under which an iteration reaches the \<open>// open\<close> branch: the character has
  a truthy specification and the top of the stack, if any, carries another symbol.
\<close>

definition opens :: "symbol_map \<Rightarrow> cu \<Rightarrow> scan_state \<Rightarrow> bool" where
  "opens symbolMap ch st =
     (case symbolMap [ch] of
        Some (Spec sp) \<Rightarrow> (case stack st of [] \<Rightarrow> True | top_entry # rest \<Rightarrow> o_symbol top_entry \<noteq> ch)
      | _ \<Rightarrow> False)"

text \<open>
  The entries given to \<open>stack.push\<close> during the loop, in the order of the pushes: an
  iteration that opens contributes the entry on top of the stack it leaves.
\<close>

fun opened :: "symbol_map \<Rightarrow> string list \<Rightarrow> nat \<Rightarrow> cu list \<Rightarrow> scan_state \<Rightarrow> open_region list" where
  "opened symbolMap palette i [] st = []"
| "opened symbolMap palette i (ch # rest) st =
     (if opens symbolMap ch st then [hd (stack (body symbolMap palette i ch st))] else []) @
     opened symbolMap palette (Suc i) rest (body symbolMap palette i ch st)"

text \<open>The region that a range reports: its symbol, color and start.\<close>

definition region_of :: "ann_range \<Rightarrow> open_region" where
  "region_of r = \<lparr> o_symbol = symbol r, o_color = color r, o_start = start r \<rparr>"

text \<open>
  The cursor \<open>{ line, col, index: i }\<close> at the head of every iteration, followed by the
  cursor when the loop ends.
\<close>

fun cursors :: "symbol_map \<Rightarrow> string list \<Rightarrow> nat \<Rightarrow> cu list \<Rightarrow> scan_state \<Rightarrow> position list" where
  "cursors symbolMap palette i [] st = [cursor st i]"
| "cursors symbolMap palette i (ch # rest) st =
     cursor st i # cursors symbolMap palette (Suc i) rest (body symbolMap palette i ch st)"

text \<open>
  What one iteration does to the symbols on the stack, top first: the colors, the
  positions and the generator play no part in it.
\<close>

definition toggle :: "symbol_map \<Rightarrow> cu \<Rightarrow> cu list \<Rightarrow> cu list" where
  "toggle symbolMap ch syms =
     (case symbolMap [ch] of
        Some (Spec sp) \<Rightarrow>
          (case syms of [] \<Rightarrow> [ch] | s # rest \<Rightarrow> if s = ch then rest else ch # syms)
      | _ \<Rightarrow> syms)"

text \<open>
  Texts whose delimiters are paired and strictly nested: a character without a symbol
  specification is plain text; a delimiter opens a pair, encloses a well-nested text and is
  closed by the same delimiter.
\<close>

inductive well_nested :: "symbol_map \<Rightarrow> cu list \<Rightarrow> bool" for symbolMap where
  wn_empty: "well_nested symbolMap []"
| wn_plain: "\<nexists>sp. symbolMap [c] = Some (Spec sp) \<Longrightarrow> well_nested symbolMap w \<Longrightarrow>
     well_nested symbolMap (c # w)"
| wn_pair: "symbolMap [s] = Some (Spec sp) \<Longrightarrow> well_nested symbolMap u \<Longrightarrow>
     well_nested symbolMap v \<Longrightarrow> well_nested symbolMap (s # u @ s # v)"

text \<open>A configuration that makes the line feed itself a delimiter.\<close>

definition NL_config :: config where
  "NL_config = \<lparr> symbols = Some [ [NEWLINE] \<mapsto> Spec \<lparr> kind = Some ''onoff'', spec_color = Some ''#FFE26A'' \<rparr> ] \<rparr>"

text \<open>
  A configuration written with the kind name \<open>fixed\<close>, which the scanner does not know.
\<close>

definition fixed_config :: config where
  "fixed_config = \<lparr> symbols = Some [ [TRIANGLE] \<mapsto> Spec \<lparr> kind = Some ''fixed'', spec_color = Some ''#FF0000'' \<rparr> ] \<rparr>"

section \<open>Runs with an explicit source of random numbers\<close>

text \<open>
  \<open>annotate\<close> draws random numbers only by calling the closure \<open>rand\<close> that it hands to
  \<open>pickColor\<close>. A source of numbers is a relation: \<open>rand t (t', n)\<close> says that a call made in
  closure state \<open>t\<close> may leave the state \<open>t'\<close> and return \<open>n / 4294967296\<close>. The closure that
  \<open>mulberry32\<close> builds allows one outcome per state; a source of system entropy, such as
  \<open>Math.random\<close>, allows every number.
\<close>

type_synonym generator = "nat \<Rightarrow> nat \<times> nat \<Rightarrow> bool"

definition mulberry32_call :: generator where
  "mulberry32_call t r \<longleftrightarrow> r = mulberry32_step t"

definition entropy_call :: generator where
  "entropy_call t r \<longleftrightarrow> snd r < 2 ^ 32"

definition deterministic_generator :: "generator \<Rightarrow> bool" where
  "deterministic_generator rand \<longleftrightarrow> (\<forall>t r1 r2. rand t r1 \<longrightarrow> rand t r2 \<longrightarrow> r1 = r2)"

text \<open>The color that \<open>pickColor\<close> takes once \<open>rand()\<close> has returned \<open>n / 4294967296\<close>.\<close>

definition pick_from :: "nat \<Rightarrow> string list \<Rightarrow> js_color set \<Rightarrow> js_color" where
  "pick_from n palette usedSet =
     (let unused = filter (\<lambda>c. Str c \<notin> usedSet) palette;
          arr = (if unused \<noteq> [] then unused else palette);
          idx = round53 (n * length arr) div 2 ^ 32
      in if idx < length arr then Str (arr ! idx) else Undefined)"

text \<open>\<open>pickColor(rand, palette, usedSet)\<close> for any source \<open>rand\<close>.\<close>

inductive pickColor_run ::
  "generator \<Rightarrow> nat \<Rightarrow> string list \<Rightarrow> js_color set \<Rightarrow> js_color \<times> js_color set \<times> nat \<Rightarrow> bool"
  for rand where
  pick_fallback:
    "palette = [] \<Longrightarrow> pickColor_run rand t0 palette usedSet (Str ''#CCCCCC'', usedSet, t0)"
| pick_draw:
    "palette \<noteq> [] \<Longrightarrow> rand t0 (t, n) \<Longrightarrow>
     pickColor_run rand t0 palette usedSet
       (pick_from n palette usedSet, insert (pick_from n palette usedSet) usedSet, t)"

text \<open>The color resolution of the \<open>// open\<close> branch for any source.\<close>

inductive resolve_run ::
  "generator \<Rightarrow> string list \<Rightarrow> symbol_spec \<Rightarrow> scan_state \<Rightarrow> js_color \<times> js_color set \<times> nat \<Rightarrow> bool"
  for rand where
  res_onoff:
    "kind sp = Some ''onoff'' \<Longrightarrow>
     resolve_run rand palette sp st
       (Str (color_or_default (spec_color sp)),
        insert (Str (color_or_default (spec_color sp))) (usedColors st), rng_t st)"
| res_random:
    "kind sp = Some ''random'' \<Longrightarrow> pickColor_run rand (rng_t st) palette (usedColors st) res \<Longrightarrow>
     resolve_run rand palette sp st res"
| res_other:
    "kind sp \<noteq> Some ''onoff'' \<Longrightarrow> kind sp \<noteq> Some ''random'' \<Longrightarrow>
     resolve_run rand palette sp st (Str ''#CCCCCC'', usedColors st, rng_t st)"

text \<open>One iteration of the \<open>for\<close> loop for any source, one rule per path through the body.\<close>

inductive iteration ::
  "generator \<Rightarrow> symbol_map \<Rightarrow> string list \<Rightarrow> nat \<Rightarrow> cu \<Rightarrow> scan_state \<Rightarrow> scan_state \<Rightarrow> bool"
  for rand symbolMap palette where
  it_falsy:
    "symbolMap [ch] = Some Falsy \<Longrightarrow> iteration rand symbolMap palette i ch st st"
| it_close:
    "symbolMap [ch] = Some (Spec sp) \<Longrightarrow> stack st = top_entry # rest \<Longrightarrow> o_symbol top_entry = ch \<Longrightarrow>
     iteration rand symbolMap palette i ch st
       ((close_top i ch top_entry rest st) \<lparr> s_col := s_col st + 1 \<rparr>)"
| it_open:
    "symbolMap [ch] = Some (Spec sp) \<Longrightarrow> stack st = [] \<or> o_symbol (hd (stack st)) \<noteq> ch \<Longrightarrow>
     resolve_run rand palette sp st (c, used, t) \<Longrightarrow>
     iteration rand symbolMap palette i ch st
       (st \<lparr> stack := \<lparr> o_symbol = ch, o_color = c, o_start = cursor st i \<rparr> # stack st,
             usedColors := used, rng_t := t, s_col := s_col st + 1 \<rparr>)"
| it_newline:
    "symbolMap [ch] = None \<Longrightarrow> ch = NEWLINE \<Longrightarrow>
     iteration rand symbolMap palette i ch st (st \<lparr> s_line := s_line st + 1, s_col := 0 \<rparr>)"
| it_plain:
    "symbolMap [ch] = None \<Longrightarrow> ch \<noteq> NEWLINE \<Longrightarrow>
     iteration rand symbolMap palette i ch st (st \<lparr> s_col := s_col st + 1 \<rparr>)"

text \<open>The loop over the rest of the content, from index \<open>i\<close>.\<close>

inductive loop_run ::
  "generator \<Rightarrow> symbol_map \<Rightarrow> string list \<Rightarrow> nat \<Rightarrow> cu list \<Rightarrow> scan_state \<Rightarrow> scan_state \<Rightarrow> bool"
  for rand symbolMap palette where
  loop_done: "loop_run rand symbolMap palette i [] st st"
| loop_step:
    "iteration rand symbolMap palette i ch st st1 \<Longrightarrow>
     loop_run rand symbolMap palette (Suc i) rest st1 st2 \<Longrightarrow>
     loop_run rand symbolMap palette i (ch # rest) st st2"

text \<open>
  A whole invocation whose closure starts in state \<open>t0\<close>: the loop from the initial locals,
  then the end-of-input loop.
\<close>

inductive run_with ::
  "generator \<Rightarrow> nat \<Rightarrow> cu list \<Rightarrow> config \<Rightarrow> string list \<Rightarrow> ann_range list \<Rightarrow> bool"
  for rand where
  run_result:
    "loop_run rand (symbols_of cfg) palette 0 content
       \<lparr> s_line = 0, s_col = 0, stack = [], ranges = [], usedColors = {}, rng_t = t0 \<rparr> st \<Longrightarrow>
     run_with rand t0 content cfg palette (drain (cursor st (length content)) (stack st) (ranges st))"

text \<open>
  An invocation of \<open>annotate\<close>: its source is \<open>mulberry32(seed >>> 0)\<close>, and \<open>result\<close> is a value
  it can return.
\<close>

definition annotate_run :: "cu list \<Rightarrow> config \<Rightarrow> string list \<Rightarrow> int \<Rightarrow> ann_range list \<Rightarrow> bool" where
  "annotate_run content cfg palette seed result \<longleftrightarrow>
     run_with mulberry32_call (mulberry32 seed) content cfg palette result"

text \<open>A palette of two colors, and a configuration with the line feed and the triangle.\<close>

definition two_colors :: "string list" where
  "two_colors = [''#000000'', ''#FFFFFF'']"

definition NL_TRIANGLE_config :: config where
  "NL_TRIANGLE_config =
     \<lparr> symbols = Some
         [ [NEWLINE] \<mapsto> Spec \<lparr> kind = Some ''onoff'', spec_color = Some ''#FFE26A'' \<rparr>,
           [TRIANGLE] \<mapsto> Spec \<lparr> kind = Some ''onoff'', spec_color = Some ''#FFE26A'' \<rparr> ] \<rparr>"

section \<open>Basic facts about one iteration\<close>

lemma drain_append: "drain e stk rs = rs @ map (eof_range e) stk"
  by (induction stk arbitrary: rs) simp_all

lemma open_new_stack:
  "stack (open_new pal i ch sp st) =
     \<lparr> o_symbol = ch, o_color = fst (resolve_color pal sp st), o_start = cursor st i \<rparr> # stack st"
  by (simp add: open_new_def split: prod.splits)

lemma open_new_keeps:
  "ranges (open_new pal i ch sp st) = ranges st"
  "s_line (open_new pal i ch sp st) = s_line st"
  "s_col (open_new pal i ch sp st) = s_col st"
  by (simp_all add: open_new_def split: prod.splits)

lemma close_top_fields:
  "stack (close_top i ch opn rest st) = rest"
  "ranges (close_top i ch opn rest st) = ranges st @
     [\<lparr> symbol = ch, color = o_color opn, start = o_start opn, end_pos = cursor st i, is_open = False \<rparr>]"
  "s_line (close_top i ch opn rest st) = s_line st"
  "s_col (close_top i ch opn rest st) = s_col st"
  "usedColors (close_top i ch opn rest st) = usedColors st"
  "rng_t (close_top i ch opn rest st) = rng_t st"
  by (simp_all add: close_top_def)

lemma body_inert:
  "symbolMap [ch] = None \<Longrightarrow>
     body symbolMap pal i ch st =
       (if ch = NEWLINE then st \<lparr> s_line := s_line st + 1, s_col := 0 \<rparr>
        else st \<lparr> s_col := s_col st + 1 \<rparr>)"
  by (simp add: body_def)

lemma body_falsy: "symbolMap [ch] = Some Falsy \<Longrightarrow> body symbolMap pal i ch st = st"
  by (simp add: body_def)

lemma body_close:
  "symbolMap [ch] = Some (Spec sp) \<Longrightarrow> stack st = tp # rest \<Longrightarrow> o_symbol tp = ch \<Longrightarrow>
     body symbolMap pal i ch st = (close_top i ch tp rest st) \<lparr> s_col := s_col st + 1 \<rparr>"
  by (simp add: body_def close_top_fields)

lemma body_open:
  "symbolMap [ch] = Some (Spec sp) \<Longrightarrow> stack st = [] \<or> o_symbol (hd (stack st)) \<noteq> ch \<Longrightarrow>
     body symbolMap pal i ch st = (open_new pal i ch sp st) \<lparr> s_col := s_col st + 1 \<rparr>"
  by (cases "stack st") (auto simp: body_def open_new_keeps)

section \<open>The default configuration\<close>

lemma default_symbols:
  "symbols_of buildDefaultConfig [TRIANGLE] =
     Some (Spec \<lparr> kind = Some ''onoff'', spec_color = Some ''#FFE26A'' \<rparr>)"
  "symbols_of buildDefaultConfig [SQUARE] = Some (Spec \<lparr> kind = Some ''random'', spec_color = None \<rparr>)"
  "symbols_of buildDefaultConfig [CIRCLE] = Some (Spec \<lparr> kind = Some ''random'', spec_color = None \<rparr>)"
  by (simp_all add: symbols_of_def buildDefaultConfig_def TRIANGLE_def SQUARE_def CIRCLE_def)

section \<open>The stack rule\<close>

text \<open>
  Claim C2. Let \<open>ch\<close> be a character configured in \<open>symbols\<close>, that is one that the symbol
  map sends to a symbol specification. The iteration that reads \<open>ch\<close> at index \<open>i\<close> closes a
  region exactly when the stack is not empty and the symbol of its top entry is \<open>ch\<close>: it
  pops that entry and appends one range whose start and color are the popped entry's and
  whose end is the current position. In every other case it pushes a new entry for \<open>ch\<close>
  that starts at the current position, and appends no range. The iteration is a total
  function from states to states: no occurrence leads to an error value.
\<close>

theorem C2_close_or_open:
  assumes "symbolMap [ch] = Some (Spec sp)"
  shows "(stack st \<noteq> [] \<and> o_symbol (hd (stack st)) = ch \<longrightarrow>
            stack (body symbolMap palette i ch st) = tl (stack st) \<and>
            ranges (body symbolMap palette i ch st) =
              ranges st @
              [\<lparr> symbol = ch, color = o_color (hd (stack st)), start = o_start (hd (stack st)),
                 end_pos = \<lparr> line = s_line st, col = s_col st, index = i \<rparr>,
                 is_open = False \<rparr>]) \<and>
         (\<not> (stack st \<noteq> [] \<and> o_symbol (hd (stack st)) = ch) \<longrightarrow>
            (\<exists>c. stack (body symbolMap palette i ch st) =
                   \<lparr> o_symbol = ch, o_color = c,
                     o_start = \<lparr> line = s_line st, col = s_col st, index = i \<rparr> \<rparr> # stack st) \<and>
            ranges (body symbolMap palette i ch st) = ranges st)"
proof (cases "stack st \<noteq> [] \<and> o_symbol (hd (stack st)) = ch")
  case True
  then obtain tp rest where st: "stack st = tp # rest" "o_symbol tp = ch"
    by (cases "stack st") auto
  show ?thesis
    using True st body_close [of symbolMap ch sp st tp rest palette i] assms
    by (simp add: close_top_fields cursor_def)
next
  case False
  then have "stack st = [] \<or> o_symbol (hd (stack st)) \<noteq> ch" by auto
  from body_open [of symbolMap ch sp st palette i] assms this False show ?thesis
    by (simp add: open_new_stack open_new_keeps cursor_def)
qed

theorem C2_close_or_open_witness:
  "stack (body (symbols_of buildDefaultConfig) [] 0 TRIANGLE (init_state 0)) =
     [\<lparr> o_symbol = TRIANGLE, o_color = Str ''#FFE26A'',
        o_start = \<lparr> line = 0, col = 0, index = 0 \<rparr> \<rparr>] \<and>
   ranges (body (symbols_of buildDefaultConfig) [] 1 TRIANGLE
            (body (symbols_of buildDefaultConfig) [] 0 TRIANGLE (init_state 0))) =
     [\<lparr> symbol = TRIANGLE, color = Str ''#FFE26A'',
        start = \<lparr> line = 0, col = 0, index = 0 \<rparr>,
        end_pos = \<lparr> line = 0, col = 1, index = 1 \<rparr>, is_open = False \<rparr>] \<and>
   stack (body (symbols_of buildDefaultConfig) [] 1 TRIANGLE
            (body (symbols_of buildDefaultConfig) [] 0 TRIANGLE (init_state 0))) = []"
proof -
  let ?m = "symbols_of buildDefaultConfig"
  let ?s1 = "body ?m [] 0 TRIANGLE (init_state 0)"
  have s1: "?s1 = \<lparr> s_line = 0, s_col = 1,
      stack = [\<lparr> o_symbol = TRIANGLE, o_color = Str ''#FFE26A'',
                 o_start = \<lparr> line = 0, col = 0, index = 0 \<rparr> \<rparr>],
      ranges = [], usedColors = {Str ''#FFE26A''}, rng_t = 0 \<rparr>"
    by (simp add: body_def default_symbols init_state_def open_new_def resolve_color_def
        color_or_default_def cursor_def mulberry32_def Let_def)
  from C2_close_or_open [of ?m TRIANGLE _ ?s1 "[]" 1] default_symbols(1)
  show ?thesis unfolding s1 by simp
qed

section \<open>The loop as a whole\<close>

lemma body_cases [case_names inert falsy close opn]:
  obtains
    "m [ch] = None"
      "body m pal i ch st =
         (if ch = NEWLINE then st \<lparr> s_line := s_line st + 1, s_col := 0 \<rparr>
          else st \<lparr> s_col := s_col st + 1 \<rparr>)"
  | "m [ch] = Some Falsy" "body m pal i ch st = st"
  | sp tp rest where "m [ch] = Some (Spec sp)" "stack st = tp # rest" "o_symbol tp = ch"
      "body m pal i ch st = (close_top i ch tp rest st) \<lparr> s_col := s_col st + 1 \<rparr>"
  | sp where "m [ch] = Some (Spec sp)" "stack st = [] \<or> o_symbol (hd (stack st)) \<noteq> ch"
      "body m pal i ch st = (open_new pal i ch sp st) \<lparr> s_col := s_col st + 1 \<rparr>"
proof (cases "m [ch]")
  case None
  with that(1) body_inert [of m ch pal i st] show ?thesis by blast
next
  case (Some v)
  show ?thesis
  proof (cases v)
    case Falsy
    with Some that(2) body_falsy [of m ch pal i st] show ?thesis by blast
  next
    case (Spec sp)
    with Some have m: "m [ch] = Some (Spec sp)" by simp
    show ?thesis
    proof (cases "stack st = [] \<or> o_symbol (hd (stack st)) \<noteq> ch")
      case True
      with m that(4) body_open [of m ch sp st pal i] show ?thesis by blast
    next
      case False
      then obtain tp rest where "stack st = tp # rest" "o_symbol tp = ch"
        by (cases "stack st") auto
      with m that(3) body_close [of m ch sp st tp rest pal i] show ?thesis by blast
    qed
  qed
qed

lemma cursors_nth:
  "k \<le> length content \<Longrightarrow>
     cursors m pal i content st ! k = cursor (scan m pal i (take k content) st) (i + k)"
proof (induction content arbitrary: i st k)
  case Nil
  then show ?case by simp
next
  case (Cons ch rest)
  show ?case
  proof (cases k)
    case 0
    then show ?thesis by simp
  next
    case (Suc j)
    with Cons.prems have "j \<le> length rest" by simp
    from Cons.IH [OF this, of "Suc i" "body m pal i ch st"] Suc show ?thesis by simp
  qed
qed

lemma scan_snoc: "scan m pal i (u @ [ch]) st = body m pal (i + length u) ch (scan m pal i u st)"
  by (induction u arbitrary: i st) simp_all

lemma cursors_step:
  assumes "k < length content"
  shows "cursors m pal i content st ! Suc k =
           cursor (body m pal (i + k) (content ! k) (scan m pal i (take k content) st)) (Suc (i + k))"
proof -
  have "take (Suc k) content = take k content @ [content ! k]"
    using assms by (simp add: take_Suc_conv_app_nth)
  moreover have "length (take k content) = k" using assms by simp
  ultimately have "scan m pal i (take (Suc k) content) st =
      body m pal (i + k) (content ! k) (scan m pal i (take k content) st)"
    using scan_snoc [of m pal i "take k content" "content ! k" st] by simp
  with cursors_nth [of "Suc k" content m pal i st] assms show ?thesis by simp
qed

lemma body_stack_symbols:
  "map o_symbol (stack (body m pal i ch st)) = toggle m ch (map o_symbol (stack st))"
proof (cases "m [ch]")
  case None
  then show ?thesis by (simp add: body_inert toggle_def)
next
  case (Some v)
  show ?thesis
  proof (cases v)
    case Falsy
    with Some show ?thesis by (simp add: body_falsy toggle_def)
  next
    case (Spec sp)
    with Some have m: "m [ch] = Some (Spec sp)" by simp
    show ?thesis
    proof (cases "stack st")
      case Nil
      with body_open [of m ch sp st pal i] m show ?thesis
        by (simp add: toggle_def open_new_stack)
    next
      case (Cons tp rest)
      show ?thesis
      proof (cases "o_symbol tp = ch")
        case True
        with body_close [of m ch sp st tp rest pal i] m Cons show ?thesis
          by (simp add: toggle_def close_top_fields)
      next
        case False
        with body_open [of m ch sp st pal i] m Cons show ?thesis
          by (simp add: toggle_def open_new_stack)
      qed
    qed
  qed
qed

lemma scan_stack_symbols:
  "map o_symbol (stack (scan m pal i content st)) = fold (toggle m) content (map o_symbol (stack st))"
  by (induction content arbitrary: i st) (simp_all add: body_stack_symbols)

section \<open>Line and column accounting on a concrete text\<close>

text \<open>
  The text \<open>"a\\n\<triangle>b\<triangle>"\<close>, for every symbol map that configures the triangle and leaves
  \<open>a\<close>, \<open>b\<close> and the line feed unconfigured, every palette and every seed.
\<close>

lemma default_symbols_plain:
  "symbols_of buildDefaultConfig [0x61] = None"
  "symbols_of buildDefaultConfig [NEWLINE] = None"
  "symbols_of buildDefaultConfig [0x62] = None"
  by (simp_all add: symbols_of_def buildDefaultConfig_def TRIANGLE_def SQUARE_def CIRCLE_def NEWLINE_def)

lemma default_config_eq: "buildDefaultConfig = \<lparr> symbols = Some (symbols_of buildDefaultConfig) \<rparr>"
  by (simp add: symbols_of_def buildDefaultConfig_def)

lemma newline_example:
  assumes "m [TRIANGLE] = Some (Spec sp)" "m [0x61] = None" "m [NEWLINE] = None" "m [0x62] = None"
  shows "\<exists>c. annotate [0x61, NEWLINE, TRIANGLE, 0x62, TRIANGLE] \<lparr> symbols = Some m \<rparr> palette seed =
           [\<lparr> symbol = TRIANGLE, color = c,
              start = \<lparr> line = 1, col = 0, index = 2 \<rparr>,
              end_pos = \<lparr> line = 1, col = 2, index = 4 \<rparr>,
              is_open = False \<rparr>]"
proof -
  have ne: "(0x61 :: cu) \<noteq> NEWLINE" "(0x62 :: cu) \<noteq> NEWLINE"
    by (simp_all add: NEWLINE_def)
  obtain c used t where rc: "resolve_color palette sp
      \<lparr>s_line = Suc 0, s_col = 0, stack = [], ranges = [], usedColors = {}, rng_t = mulberry32 seed\<rparr> = (c, used, t)"
    by (metis prod_cases3)
  show ?thesis
    by (rule exI [of _ c])
      (simp add: annotate_def final_state_def symbols_of_def body_def assms ne init_state_def
        open_new_def close_top_def cursor_def rc)
qed

text \<open>
  Claim C6, as amended. For the text made of \<open>a\<close>, a line feed, the triangle, \<open>b\<close> and the
  triangle, with the triangle a configured symbol and the other three characters not
  configured, \<open>annotate\<close> returns exactly one range: it is the triangle's, it is closed, its
  start is line 1, column 0, index 2 and its end is line 1, column 2, index 4. Columns are
  counted from 0, so the claim's columns 1 and 3 are each one too large.
\<close>

theorem C6_newline_example:
  assumes "symbolMap [TRIANGLE] = Some (Spec sp)"
    and "symbolMap [0x61] = None" and "symbolMap [NEWLINE] = None" and "symbolMap [0x62] = None"
  shows "\<exists>c. annotate [0x61, NEWLINE, TRIANGLE, 0x62, TRIANGLE] \<lparr> symbols = Some symbolMap \<rparr> palette seed =
           [\<lparr> symbol = TRIANGLE, color = c,
              start = \<lparr> line = 1, col = 0, index = 2 \<rparr>,
              end_pos = \<lparr> line = 1, col = 2, index = 4 \<rparr>,
              is_open = False \<rparr>]"
  using assms by (rule newline_example)

theorem C6_newline_example_witness:
  "\<exists>c. annotate [0x61, NEWLINE, TRIANGLE, 0x62, TRIANGLE] buildDefaultConfig defaultPalette 0 =
           [\<lparr> symbol = TRIANGLE, color = c,
              start = \<lparr> line = 1, col = 0, index = 2 \<rparr>,
              end_pos = \<lparr> line = 1, col = 2, index = 4 \<rparr>,
              is_open = False \<rparr>]"
  using C6_newline_example [OF default_symbols(1) default_symbols_plain, of defaultPalette 0]
    default_config_eq by simp

theorem C6_newline_example_counterexample:
  "\<not> (\<exists>r \<in> set (annotate [0x61, NEWLINE, TRIANGLE, 0x62, TRIANGLE] buildDefaultConfig defaultPalette 0).
        symbol r = TRIANGLE \<and> line (start r) = 1 \<and> col (start r) = 1 \<and>
        line (end_pos r) = 1 \<and> col (end_pos r) = 3)"
proof -
  from newline_example [OF default_symbols(1) default_symbols_plain, of defaultPalette 0]
  obtain c where "annotate [0x61, NEWLINE, TRIANGLE, 0x62, TRIANGLE]
      \<lparr> symbols = Some (symbols_of buildDefaultConfig) \<rparr> defaultPalette 0 =
           [\<lparr> symbol = TRIANGLE, color = c,
              start = \<lparr> line = 1, col = 0, index = 2 \<rparr>,
              end_pos = \<lparr> line = 1, col = 2, index = 4 \<rparr>,
              is_open = False \<rparr>]" by blast
  then show ?thesis using default_config_eq by simp
qed

section \<open>The cursor\<close>

lemma body_cursor_plain:
  assumes "m [ch] = None"
  shows "s_line (body m pal i ch st) = (if ch = NEWLINE then s_line st + 1 else s_line st)"
    and "s_col (body m pal i ch st) = (if ch = NEWLINE then 0 else s_col st + 1)"
  using assms by (simp_all add: body_inert)

lemma body_cursor_delimiter:
  assumes "m [ch] = Some (Spec sp)"
  shows "s_line (body m pal i ch st) = s_line st"
    and "s_col (body m pal i ch st) = s_col st + 1"
proof -
  have "s_line (body m pal i ch st) = s_line st \<and> s_col (body m pal i ch st) = s_col st + 1"
  proof (cases rule: body_cases [of m ch pal i st])
    case inert
    with assms show ?thesis by simp
  next
    case falsy
    with assms show ?thesis by simp
  next
    case (close sp tp rest)
    then show ?thesis by (simp add: close_top_fields)
  next
    case (opn sp)
    then show ?thesis by (simp add: open_new_keeps)
  qed
  then show "s_line (body m pal i ch st) = s_line st"
    and "s_col (body m pal i ch st) = s_col st + 1" by simp_all
qed

text \<open>
  What the loop does to the cursor at index \<open>k\<close>. The offset goes from \<open>k\<close> to \<open>k + 1\<close>.
  An unconfigured line feed starts a new line at column 0 and every other unconfigured
  character takes one column. A character with a symbol specification takes one column and
  leaves the line counter alone, also when it is a line feed.
\<close>

lemma cursor_advance:
  assumes "k < length content"
  shows "let cs = cursors m pal 0 content st0;
             ch = content ! k; p = cs ! k; p' = cs ! Suc k
         in index p = k \<and> index p' = Suc k \<and>
            (m [ch] = None \<and> ch = NEWLINE \<longrightarrow> line p' = line p + 1 \<and> col p' = 0) \<and>
            ((\<exists>sp. m [ch] = Some (Spec sp)) \<or> (m [ch] = None \<and> ch \<noteq> NEWLINE) \<longrightarrow>
               line p' = line p \<and> col p' = col p + 1)"
proof -
  let ?st = "scan m pal 0 (take k content) st0"
  have p: "cursors m pal 0 content st0 ! k = cursor ?st k"
    using cursors_nth [of k content m pal 0 st0] assms by simp
  have p': "cursors m pal 0 content st0 ! Suc k = cursor (body m pal k (content ! k) ?st) (Suc k)"
    using cursors_step [OF assms, of m pal 0 st0] by simp
  show ?thesis
    unfolding Let_def p p'
    by (auto simp: cursor_def body_cursor_plain body_cursor_delimiter)
qed

lemma cursors_newline_delimiter:
  "cursors (symbols_of NL_config) [] 0 [NEWLINE] (init_state 0) =
     [\<lparr> line = 0, col = 0, index = 0 \<rparr>, \<lparr> line = 0, col = 1, index = 1 \<rparr>]"
  by (simp add: symbols_of_def NL_config_def body_def init_state_def open_new_def resolve_color_def
      color_or_default_def cursor_def Let_def)

section \<open>A run with the default configuration\<close>

lemmas run_simps = body_def open_new_def close_top_def resolve_color_def
  color_or_default_def cursor_def Let_def default_symbols default_symbols_plain

lemma delimiters_distinct:
  "TRIANGLE \<noteq> SQUARE" "SQUARE \<noteq> TRIANGLE" "TRIANGLE \<noteq> CIRCLE" "CIRCLE \<noteq> TRIANGLE"
  "SQUARE \<noteq> CIRCLE" "CIRCLE \<noteq> SQUARE"
  by (simp_all add: TRIANGLE_def SQUARE_def CIRCLE_def)

lemma mulberry32_step_seed0: "mulberry32_step 0 = (1831565813, 1144304738)"
  by (simp add: mulberry32_step_def round53_def Let_def)

lemma mulberry32_step_seed0_next: "mulberry32_step 1831565813 = (3663131626, 1416247)"
  by (simp add: mulberry32_step_def round53_def Let_def)

lemma pickColor_first:
  "pickColor 0 defaultPalette {Str ''#FFE26A''} =
     (Str ''#64D6E2'', {Str ''#64D6E2'', Str ''#FFE26A''}, 1831565813)"
  by (simp add: pickColor_def defaultPalette_def mulberry32_step_seed0 round53_def Let_def)

lemma pickColor_second:
  "pickColor 1831565813 defaultPalette {Str ''#64D6E2'', Str ''#FFE26A''} =
     (Str ''#FF6B6B'', {Str ''#FF6B6B'', Str ''#64D6E2'', Str ''#FFE26A''}, 3663131626)"
  by (simp add: pickColor_def defaultPalette_def mulberry32_step_seed0_next round53_def Let_def)

lemma init_state_0:
  "init_state 0 = \<lparr> s_line = 0, s_col = 0, stack = [], ranges = [], usedColors = {}, rng_t = 0 \<rparr>"
  by (simp add: init_state_def mulberry32_def)

lemma final_state_example:
  "final_state [TRIANGLE, SQUARE, SQUARE, CIRCLE] buildDefaultConfig defaultPalette 0 =
     \<lparr> s_line = 0, s_col = 4,
       stack = [\<lparr> o_symbol = CIRCLE, o_color = Str ''#FF6B6B'', o_start = \<lparr> line = 0, col = 3, index = 3 \<rparr> \<rparr>,
                \<lparr> o_symbol = TRIANGLE, o_color = Str ''#FFE26A'', o_start = \<lparr> line = 0, col = 0, index = 0 \<rparr> \<rparr>],
       ranges = [\<lparr> symbol = SQUARE, color = Str ''#64D6E2'',
                   start = \<lparr> line = 0, col = 1, index = 1 \<rparr>,
                   end_pos = \<lparr> line = 0, col = 2, index = 2 \<rparr>, is_open = False \<rparr>],
       usedColors = {Str ''#FF6B6B'', Str ''#64D6E2'', Str ''#FFE26A''},
       rng_t = 3663131626 \<rparr>"
proof -
  let ?m = "symbols_of buildDefaultConfig"
  let ?s1 = "body ?m defaultPalette 0 TRIANGLE (init_state 0)"
  have s1: "?s1 = \<lparr> s_line = 0, s_col = 1,
       stack = [\<lparr> o_symbol = TRIANGLE, o_color = Str ''#FFE26A'', o_start = \<lparr> line = 0, col = 0, index = 0 \<rparr> \<rparr>],
       ranges = [], usedColors = {Str ''#FFE26A''}, rng_t = 0 \<rparr>"
    by (simp add: run_simps init_state_0)
  let ?s2 = "body ?m defaultPalette 1 SQUARE ?s1"
  have s2: "?s2 = \<lparr> s_line = 0, s_col = 2,
       stack = [\<lparr> o_symbol = SQUARE, o_color = Str ''#64D6E2'', o_start = \<lparr> line = 0, col = 1, index = 1 \<rparr> \<rparr>,
                \<lparr> o_symbol = TRIANGLE, o_color = Str ''#FFE26A'', o_start = \<lparr> line = 0, col = 0, index = 0 \<rparr> \<rparr>],
       ranges = [], usedColors = {Str ''#64D6E2'', Str ''#FFE26A''}, rng_t = 1831565813 \<rparr>"
    unfolding s1 by (simp add: run_simps pickColor_first delimiters_distinct)
  let ?s3 = "body ?m defaultPalette 2 SQUARE ?s2"
  have s3: "?s3 = \<lparr> s_line = 0, s_col = 3,
       stack = [\<lparr> o_symbol = TRIANGLE, o_color = Str ''#FFE26A'', o_start = \<lparr> line = 0, col = 0, index = 0 \<rparr> \<rparr>],
       ranges = [\<lparr> symbol = SQUARE, color = Str ''#64D6E2'',
                   start = \<lparr> line = 0, col = 1, index = 1 \<rparr>,
                   end_pos = \<lparr> line = 0, col = 2, index = 2 \<rparr>, is_open = False \<rparr>],
       usedColors = {Str ''#64D6E2'', Str ''#FFE26A''}, rng_t = 1831565813 \<rparr>"
    unfolding s2 by (simp add: run_simps)
  let ?s4 = "body ?m defaultPalette 3 CIRCLE ?s3"
  have s4: "?s4 = \<lparr> s_line = 0, s_col = 4,
       stack = [\<lparr> o_symbol = CIRCLE, o_color = Str ''#FF6B6B'', o_start = \<lparr> line = 0, col = 3, index = 3 \<rparr> \<rparr>,
                \<lparr> o_symbol = TRIANGLE, o_color = Str ''#FFE26A'', o_start = \<lparr> line = 0, col = 0, index = 0 \<rparr> \<rparr>],
       ranges = [\<lparr> symbol = SQUARE, color = Str ''#64D6E2'',
                   start = \<lparr> line = 0, col = 1, index = 1 \<rparr>,
                   end_pos = \<lparr> line = 0, col = 2, index = 2 \<rparr>, is_open = False \<rparr>],
       usedColors = {Str ''#FF6B6B'', Str ''#64D6E2'', Str ''#FFE26A''},
       rng_t = 3663131626 \<rparr>"
    unfolding s3 by (simp add: run_simps pickColor_second delimiters_distinct)
  have "final_state [TRIANGLE, SQUARE, SQUARE, CIRCLE] buildDefaultConfig defaultPalette 0 = ?s4"
    by (simp add: final_state_def numeral_2_eq_2 numeral_3_eq_3)
  then show ?thesis by (simp only: s4)
qed


section \<open>Every opened region is reported once\<close>

lemma region_of_eof_range: "region_of (eof_range e opn) = opn"
  by (simp add: region_of_def eof_range_def)

lemma opens_iff:
  "opens m ch st \<longleftrightarrow> (\<exists>sp. m [ch] = Some (Spec sp)) \<and> (stack st = [] \<or> o_symbol (hd (stack st)) \<noteq> ch)"
  by (auto simp: opens_def split: option.splits spec_value.splits list.splits)

lemma body_regions:
  "mset (map region_of (ranges (body m pal i ch st))) + mset (stack (body m pal i ch st)) =
     mset (map region_of (ranges st)) + mset (stack st) +
     mset (if opens m ch st then [hd (stack (body m pal i ch st))] else [])"
proof (cases rule: body_cases [of m ch pal i st])
  case inert
  then show ?thesis by (simp add: opens_iff)
next
  case falsy
  then show ?thesis by (simp add: opens_iff)
next
  case (close sp tp rest)
  then show ?thesis by (simp add: opens_iff close_top_fields region_of_def)
next
  case (opn sp)
  then have "opens m ch st" by (auto simp: opens_iff)
  with opn show ?thesis by (simp add: open_new_stack open_new_keeps)
qed

lemma scan_regions:
  "mset (map region_of (ranges (scan m pal i content st))) + mset (stack (scan m pal i content st)) =
     mset (map region_of (ranges st)) + mset (stack st) + mset (opened m pal i content st)"
proof (induction content arbitrary: i st)
  case Nil
  show ?case by simp
next
  case (Cons ch rest)
  show ?case
    using Cons.IH [of "Suc i" "body m pal i ch st"] body_regions [of m pal i ch st]
    by (simp add: ac_simps)
qed

lemma annotate_append:
  "annotate content cfg palette seed =
     ranges (final_state content cfg palette seed) @
     map (eof_range (cursor (final_state content cfg palette seed) (length content)))
       (stack (final_state content cfg palette seed))"
  by (simp add: annotate_def drain_append Let_def)

lemma annotate_regions:
  "mset (map region_of (annotate content cfg palette seed)) =
     mset (opened (symbols_of cfg) palette 0 content (init_state seed))"
proof -
  have "map region_of (map (eof_range e) stk) = stk" for e stk
    by (induction stk) (simp_all add: region_of_eof_range)
  then show ?thesis
    using scan_regions [of "symbols_of cfg" palette 0 content "init_state seed"]
    by (simp add: annotate_append final_state_def init_state_def)
qed

text \<open>
  Claim C3. The number of ranges that \<open>annotate\<close> returns is the number of opening
  occurrences of the whole scan, and the regions that the ranges report (symbol, color and
  start) are, as a multiset, exactly the entries that were pushed: every opened region
  appears exactly once, closed or left open at the end of the input.
\<close>

theorem C3_every_opening_reported:
  "length (annotate content cfg palette seed) =
     length (opened (symbols_of cfg) palette 0 content (init_state seed)) \<and>
   mset (map region_of (annotate content cfg palette seed)) =
     mset (opened (symbols_of cfg) palette 0 content (init_state seed))"
proof -
  have "size (mset (map region_of (annotate content cfg palette seed))) =
     size (mset (opened (symbols_of cfg) palette 0 content (init_state seed)))"
    by (simp only: annotate_regions)
  then show ?thesis
    using annotate_regions [of content cfg palette seed] by simp
qed

section \<open>The order of the output\<close>

lemma body_closed_order:
  assumes "\<forall>r \<in> set (ranges st). \<not> is_open r \<and> index (end_pos r) < i"
    and "sorted_wrt (<) (map (\<lambda>r. index (end_pos r)) (ranges st))"
  shows "(\<forall>r \<in> set (ranges (body m pal i ch st)). \<not> is_open r \<and> index (end_pos r) < Suc i) \<and>
         sorted_wrt (<) (map (\<lambda>r. index (end_pos r)) (ranges (body m pal i ch st)))"
proof (cases rule: body_cases [of m ch pal i st])
  case inert
  with assms show ?thesis by (auto simp: less_Suc_eq)
next
  case falsy
  with assms show ?thesis by (auto simp: less_Suc_eq)
next
  case (close sp tp rest)
  with assms show ?thesis
    by (auto simp: close_top_fields sorted_wrt_append cursor_def less_Suc_eq)
next
  case (opn sp)
  with assms show ?thesis by (auto simp: open_new_keeps less_Suc_eq)
qed

lemma scan_closed_order:
  assumes "\<forall>r \<in> set (ranges st). \<not> is_open r \<and> index (end_pos r) < i"
    and "sorted_wrt (<) (map (\<lambda>r. index (end_pos r)) (ranges st))"
  shows "(\<forall>r \<in> set (ranges (scan m pal i content st)).
            \<not> is_open r \<and> index (end_pos r) < i + length content) \<and>
         sorted_wrt (<) (map (\<lambda>r. index (end_pos r)) (ranges (scan m pal i content st)))"
  using assms
proof (induction content arbitrary: i st)
  case Nil
  then show ?case by simp
next
  case (Cons ch rest)
  from body_closed_order [OF Cons.prems, of m pal ch]
  have "(\<forall>r \<in> set (ranges (body m pal i ch st)). \<not> is_open r \<and> index (end_pos r) < Suc i)"
    and "sorted_wrt (<) (map (\<lambda>r. index (end_pos r)) (ranges (body m pal i ch st)))"
    by blast+
  from Cons.IH [OF this] show ?case by simp
qed

lemma body_stack_order:
  assumes "\<forall>opn \<in> set (stack st). index (o_start opn) < i"
    and "sorted_wrt (>) (map (\<lambda>opn. index (o_start opn)) (stack st))"
  shows "(\<forall>opn \<in> set (stack (body m pal i ch st)). index (o_start opn) < Suc i) \<and>
         sorted_wrt (>) (map (\<lambda>opn. index (o_start opn)) (stack (body m pal i ch st)))"
proof (cases rule: body_cases [of m ch pal i st])
  case inert
  with assms show ?thesis by (auto simp: less_Suc_eq)
next
  case falsy
  with assms show ?thesis by (auto simp: less_Suc_eq)
next
  case (close sp tp rest)
  with assms show ?thesis
    by (auto simp: close_top_fields less_Suc_eq)
next
  case (opn sp)
  with assms show ?thesis by (auto simp: open_new_stack cursor_def less_Suc_eq)
qed

lemma scan_stack_order:
  assumes "\<forall>opn \<in> set (stack st). index (o_start opn) < i"
    and "sorted_wrt (>) (map (\<lambda>opn. index (o_start opn)) (stack st))"
  shows "(\<forall>opn \<in> set (stack (scan m pal i content st)). index (o_start opn) < i + length content) \<and>
         sorted_wrt (>) (map (\<lambda>opn. index (o_start opn)) (stack (scan m pal i content st)))"
  using assms
proof (induction content arbitrary: i st)
  case Nil
  then show ?case by simp
next
  case (Cons ch rest)
  from body_stack_order [OF Cons.prems, of m pal ch]
  have "\<forall>opn \<in> set (stack (body m pal i ch st)). index (o_start opn) < Suc i"
    and "sorted_wrt (>) (map (\<lambda>opn. index (o_start opn)) (stack (body m pal i ch st)))"
    by blast+
  from Cons.IH [OF this] show ?case by simp
qed

lemma final_closed_order:
  "(\<forall>r \<in> set (ranges (final_state content cfg palette seed)).
      \<not> is_open r \<and> index (end_pos r) < length content) \<and>
   sorted_wrt (<) (map (\<lambda>r. index (end_pos r)) (ranges (final_state content cfg palette seed)))"
  using scan_closed_order [of "init_state seed" 0 "symbols_of cfg" palette content]
  by (simp add: final_state_def init_state_def)

lemma final_stack_order:
  "(\<forall>opn \<in> set (stack (final_state content cfg palette seed)). index (o_start opn) < length content) \<and>
   sorted_wrt (>) (map (\<lambda>opn. index (o_start opn)) (stack (final_state content cfg palette seed)))"
  using scan_stack_order [of "init_state seed" 0 "symbols_of cfg" palette content]
  by (simp add: final_state_def init_state_def)

text \<open>
  Claim C4. The output is the list of naturally closed ranges followed by one range for
  every entry left on the stack. The closed ranges carry no \<open>open\<close> marker and stand in the
  order of their closing (their end offsets increase strictly and lie inside the text). The
  appended ranges all carry \<open>open: true\<close>, all end at the final cursor position, whose
  offset is the length of the text, and stand in stack-pop order, the most recently opened
  first (their start offsets decrease strictly).
\<close>

theorem C4_output_order:
  "let st = final_state content cfg palette seed;
       eofPos = \<lparr> line = s_line st, col = s_col st, index = length content \<rparr>;
       closed = ranges st;
       unclosed = map (\<lambda>opn. \<lparr> symbol = o_symbol opn, color = o_color opn, start = o_start opn,
                                 end_pos = eofPos, is_open = True \<rparr>) (stack st)
   in annotate content cfg palette seed = closed @ unclosed \<and>
      (\<forall>r \<in> set closed. \<not> is_open r \<and> index (end_pos r) < length content) \<and>
      sorted_wrt (<) (map (\<lambda>r. index (end_pos r)) closed) \<and>
      (\<forall>r \<in> set unclosed. is_open r \<and> end_pos r = eofPos) \<and>
      sorted_wrt (>) (map (\<lambda>r. index (start r)) unclosed)"
proof -
  let ?st = "final_state content cfg palette seed"
  have e: "eof_range (cursor ?st (length content)) =
      (\<lambda>opn. \<lparr> symbol = o_symbol opn, color = o_color opn, start = o_start opn,
               end_pos = \<lparr> line = s_line ?st, col = s_col ?st, index = length content \<rparr>,
               is_open = True \<rparr>)"
    by (rule ext) (simp add: eof_range_def cursor_def)
  have s: "sorted_wrt (>) (map (\<lambda>opn. index (o_start opn)) (stack ?st))"
    using final_stack_order [of content cfg palette seed] by blast
  show ?thesis
    unfolding Let_def
    using final_closed_order [of content cfg palette seed] s
    by (simp add: annotate_append e comp_def)
qed

theorem C4_output_order_witness:
  "annotate [TRIANGLE, SQUARE, SQUARE, CIRCLE] buildDefaultConfig defaultPalette 0 =
     [\<lparr> symbol = SQUARE, color = Str ''#64D6E2'',
        start = \<lparr> line = 0, col = 1, index = 1 \<rparr>,
        end_pos = \<lparr> line = 0, col = 2, index = 2 \<rparr>, is_open = False \<rparr>,
      \<lparr> symbol = CIRCLE, color = Str ''#FF6B6B'',
        start = \<lparr> line = 0, col = 3, index = 3 \<rparr>,
        end_pos = \<lparr> line = 0, col = 4, index = 4 \<rparr>, is_open = True \<rparr>,
      \<lparr> symbol = TRIANGLE, color = Str ''#FFE26A'',
        start = \<lparr> line = 0, col = 0, index = 0 \<rparr>,
        end_pos = \<lparr> line = 0, col = 4, index = 4 \<rparr>, is_open = True \<rparr>]"
  using C4_output_order [of "[TRIANGLE, SQUARE, SQUARE, CIRCLE]" buildDefaultConfig defaultPalette 0]
  unfolding final_state_example Let_def by simp

section \<open>Symbols that occur an odd number of times\<close>

lemma toggle_parity:
  assumes "m [s] = Some (Spec sp)"
  shows "even (count_list (toggle m ch syms) s) \<longleftrightarrow> (even (count_list syms s) \<noteq> (ch = s))"
proof (cases "\<exists>sp'. m [ch] = Some (Spec sp')")
  case False
  with assms have "ch \<noteq> s" by auto
  moreover from False have "toggle m ch syms = syms"
    by (auto simp: toggle_def split: option.splits spec_value.splits)
  ultimately show ?thesis by simp
next
  case True
  then obtain sp' where "m [ch] = Some (Spec sp')" by blast
  then show ?thesis
    by (cases syms) (auto simp: toggle_def)
qed

lemma fold_toggle_parity:
  assumes "m [s] = Some (Spec sp)"
  shows "even (count_list (fold (toggle m) content syms) s) \<longleftrightarrow>
           even (count_list syms s + count_list content s)"
proof (induction content arbitrary: syms)
  case Nil
  show ?case by simp
next
  case (Cons ch rest)
  show ?case
    using Cons.IH [of "toggle m ch syms"] toggle_parity [of m s sp ch syms] assms
    by auto
qed

lemma unclosed_filter:
  "filter (\<lambda>r. symbol r = s \<and> is_open r) (annotate content cfg palette seed) =
     map (eof_range (cursor (final_state content cfg palette seed) (length content)))
       (filter (\<lambda>opn. o_symbol opn = s) (stack (final_state content cfg palette seed)))"
proof -
  have "filter (\<lambda>r. symbol r = s \<and> is_open r) (ranges (final_state content cfg palette seed)) = []"
    using final_closed_order [of content cfg palette seed] by (auto simp: filter_empty_conv)
  moreover have "filter (\<lambda>r. symbol r = s \<and> is_open r) (map (eof_range e) stk) =
      map (eof_range e) (filter (\<lambda>opn. o_symbol opn = s) stk)" for e stk
    by (induction stk) (simp_all add: eof_range_def)
  ultimately show ?thesis by (simp add: annotate_append)
qed

lemma unclosed_count:
  "length (filter (\<lambda>r. symbol r = s \<and> is_open r) (annotate content cfg palette seed)) =
     count_list (fold (toggle (symbols_of cfg)) content []) s"
proof -
  have "count_list (map o_symbol stk) s = length (filter (\<lambda>opn. o_symbol opn = s) stk)" for stk
    by (induction stk) simp_all
  from this [of "stack (final_state content cfg palette seed)"] show ?thesis
    using scan_stack_symbols [of "symbols_of cfg" palette 0 content "init_state seed"]
    by (simp add: unclosed_filter final_state_def init_state_def)
qed

lemma unclosed_end:
  assumes "r \<in> set (annotate content cfg palette seed)" "is_open r"
  shows "end_pos r = \<lparr> line = s_line (final_state content cfg palette seed),
                       col = s_col (final_state content cfg palette seed),
                       index = length content \<rparr>"
proof -
  from assms final_closed_order [of content cfg palette seed]
  have "r \<in> set (map (eof_range (cursor (final_state content cfg palette seed) (length content)))
       (stack (final_state content cfg palette seed)))"
    by (auto simp: annotate_append)
  then show ?thesis by (auto simp: eof_range_def cursor_def)
qed

text \<open>
  Claim C5, as amended. When a symbol that has a specification occurs an odd number of
  times in the text, the number of unclosed ranges for that symbol in the output is odd: at
  least one, and possibly more than one. That number is the number of entries for the
  symbol left on the stack at the end of the input. The end of every unclosed range is the
  end-of-file position: the final line and column, with the length of the text as offset.
\<close>

theorem C5_odd_occurrences:
  assumes "symbols_of cfg [s] = Some (Spec sp)" and "odd (count_list content s)"
  shows "let out = annotate content cfg palette seed;
             st = final_state content cfg palette seed
         in odd (length (filter (\<lambda>r. symbol r = s \<and> is_open r) out)) \<and>
            length (filter (\<lambda>r. symbol r = s \<and> is_open r) out) =
              length (filter (\<lambda>opn. o_symbol opn = s) (stack st)) \<and>
            (\<forall>r \<in> set out. is_open r \<longrightarrow>
               end_pos r = \<lparr> line = s_line st, col = s_col st, index = length content \<rparr>)"
proof -
  have "odd (count_list (fold (toggle (symbols_of cfg)) content []) s)"
    using fold_toggle_parity [of "symbols_of cfg" s sp content "[]"] assms by simp
  then have "odd (length (filter (\<lambda>r. symbol r = s \<and> is_open r) (annotate content cfg palette seed)))"
    by (simp add: unclosed_count)
  moreover have "length (filter (\<lambda>r. symbol r = s \<and> is_open r) (annotate content cfg palette seed)) =
      length (filter (\<lambda>opn. o_symbol opn = s) (stack (final_state content cfg palette seed)))"
    by (simp add: unclosed_filter)
  ultimately show ?thesis
    unfolding Let_def using unclosed_end [of _ content cfg palette seed] by blast
qed

lemma toggle_default:
  "toggle (symbols_of buildDefaultConfig) TRIANGLE [] = [TRIANGLE]"
  "toggle (symbols_of buildDefaultConfig) SQUARE [] = [SQUARE]"
  "toggle (symbols_of buildDefaultConfig) CIRCLE [] = [CIRCLE]"
  "toggle (symbols_of buildDefaultConfig) TRIANGLE (x # syms) = (if x = TRIANGLE then syms else TRIANGLE # x # syms)"
  "toggle (symbols_of buildDefaultConfig) SQUARE (x # syms) = (if x = SQUARE then syms else SQUARE # x # syms)"
  "toggle (symbols_of buildDefaultConfig) CIRCLE (x # syms) = (if x = CIRCLE then syms else CIRCLE # x # syms)"
  by (simp_all add: toggle_def default_symbols)

theorem C5_odd_occurrences_counterexample:
  "odd (count_list [TRIANGLE, SQUARE, TRIANGLE, SQUARE, TRIANGLE] TRIANGLE) \<and>
   length (filter (\<lambda>r. symbol r = TRIANGLE \<and> is_open r)
     (annotate [TRIANGLE, SQUARE, TRIANGLE, SQUARE, TRIANGLE] buildDefaultConfig defaultPalette 0)) = 3"
  by (simp add: unclosed_count toggle_default delimiters_distinct)

theorem C5_odd_occurrences_witness:
  "odd (count_list [TRIANGLE, SQUARE, SQUARE, CIRCLE] TRIANGLE) \<and>
   length (filter (\<lambda>r. symbol r = TRIANGLE \<and> is_open r)
     (annotate [TRIANGLE, SQUARE, SQUARE, CIRCLE] buildDefaultConfig defaultPalette 0)) = 1 \<and>
   end_pos (annotate [TRIANGLE, SQUARE, SQUARE, CIRCLE] buildDefaultConfig defaultPalette 0 ! 2) =
     \<lparr> line = 0, col = 4, index = 4 \<rparr>"
proof -
  have o: "odd (count_list [TRIANGLE, SQUARE, SQUARE, CIRCLE] TRIANGLE)"
    by (simp add: delimiters_distinct)
  have a: "annotate [TRIANGLE, SQUARE, SQUARE, CIRCLE] buildDefaultConfig defaultPalette 0 =
     [\<lparr> symbol = SQUARE, color = Str ''#64D6E2'',
        start = \<lparr> line = 0, col = 1, index = 1 \<rparr>,
        end_pos = \<lparr> line = 0, col = 2, index = 2 \<rparr>, is_open = False \<rparr>,
      \<lparr> symbol = CIRCLE, color = Str ''#FF6B6B'',
        start = \<lparr> line = 0, col = 3, index = 3 \<rparr>,
        end_pos = \<lparr> line = 0, col = 4, index = 4 \<rparr>, is_open = True \<rparr>,
      \<lparr> symbol = TRIANGLE, color = Str ''#FFE26A'',
        start = \<lparr> line = 0, col = 0, index = 0 \<rparr>,
        end_pos = \<lparr> line = 0, col = 4, index = 4 \<rparr>, is_open = True \<rparr>]"
    by (simp add: annotate_append final_state_example eof_range_def cursor_def)
  from C5_odd_occurrences [of buildDefaultConfig TRIANGLE _ "[TRIANGLE, SQUARE, SQUARE, CIRCLE]" defaultPalette 0]
    default_symbols(1) o
  show ?thesis unfolding a final_state_example Let_def
    by (simp add: delimiters_distinct)
qed

section \<open>Well-nested texts\<close>

lemma toggle_plain: "\<nexists>sp. m [c] = Some (Spec sp) \<Longrightarrow> toggle m c syms = syms"
  by (auto simp: toggle_def split: option.splits spec_value.splits)

lemma toggle_twice:
  assumes "m [s] = Some (Spec sp)" and "distinct_adj syms"
  shows "distinct_adj (toggle m s syms)" and "toggle m s (toggle m s syms) = syms"
proof -
  show "distinct_adj (toggle m s syms)"
    using assms by (cases syms) (auto simp: toggle_def distinct_adj_Cons)
  show "toggle m s (toggle m s syms) = syms"
  proof (cases syms)
    case Nil
    with assms show ?thesis by (simp add: toggle_def)
  next
    case (Cons x rest)
    with assms show ?thesis
      by (cases rest) (auto simp: toggle_def distinct_adj_Cons)
  qed
qed

lemma fold_toggle_well_nested:
  assumes "well_nested m w"
  shows "distinct_adj syms \<Longrightarrow> fold (toggle m) w syms = syms"
  using assms
proof (induction w arbitrary: syms rule: well_nested.induct)
  case wn_empty
  show ?case by simp
next
  case (wn_plain c w)
  then show ?case by (simp add: toggle_plain)
next
  case (wn_pair s sp u v)
  from toggle_twice [of m s sp syms] wn_pair.hyps(1) wn_pair.prems
  have d: "distinct_adj (toggle m s syms)" and t: "toggle m s (toggle m s syms) = syms"
    by blast+
  have "fold (toggle m) (s # u @ s # v) syms =
      fold (toggle m) v (toggle m s (fold (toggle m) u (toggle m s syms)))"
    by simp
  also have "\<dots> = fold (toggle m) v (toggle m s (toggle m s syms))"
    by (simp only: wn_pair.IH(1) [OF d])
  also have "\<dots> = syms"
    by (simp only: t wn_pair.IH(2) [OF wn_pair.prems])
  finally show ?case .
qed

lemma well_nested_stack_empty:
  assumes "well_nested (symbols_of cfg) content"
  shows "stack (final_state content cfg palette seed) = []"
proof -
  have "map o_symbol (stack (final_state content cfg palette seed)) =
      fold (toggle (symbols_of cfg)) content []"
    using scan_stack_symbols [of "symbols_of cfg" palette 0 content "init_state seed"]
    by (simp add: final_state_def init_state_def)
  with fold_toggle_well_nested [OF assms, of "[]"] show ?thesis by simp
qed

lemma body_symbol_count:
  assumes "m [s] = Some (Spec sp)"
  shows "2 * length (filter (\<lambda>r. symbol r = s) (ranges (body m pal i ch st))) +
           count_list (map o_symbol (stack (body m pal i ch st))) s =
         2 * length (filter (\<lambda>r. symbol r = s) (ranges st)) +
           count_list (map o_symbol (stack st)) s + (if ch = s then 1 else 0)"
proof (cases rule: body_cases [of m ch pal i st])
  case inert
  with assms show ?thesis by auto
next
  case falsy
  with assms show ?thesis by auto
next
  case (close sp' tp rest)
  then show ?thesis by (auto simp: close_top_fields)
next
  case (opn sp')
  then show ?thesis by (auto simp: open_new_stack open_new_keeps)
qed

lemma scan_symbol_count:
  assumes "m [s] = Some (Spec sp)"
  shows "2 * length (filter (\<lambda>r. symbol r = s) (ranges (scan m pal i content st))) +
           count_list (map o_symbol (stack (scan m pal i content st))) s =
         2 * length (filter (\<lambda>r. symbol r = s) (ranges st)) +
           count_list (map o_symbol (stack st)) s + count_list content s"
proof (induction content arbitrary: i st)
  case Nil
  show ?case by simp
next
  case (Cons ch rest)
  show ?case
    using Cons.IH [of "Suc i" "body m pal i ch st"] body_symbol_count [of m s sp pal i ch st] assms
    by auto
qed

text \<open>
  Claim C8. In a text whose delimiters are paired and strictly nested, every range of the
  output is closed (none carries the \<open>open\<close> marker), and for every symbol that has a
  specification the number of its ranges is half the number of its occurrences.
\<close>

theorem C8_well_nested_all_closed:
  assumes "well_nested (symbols_of cfg) content"
  shows "(\<forall>r \<in> set (annotate content cfg palette seed). \<not> is_open r) \<and>
         (\<forall>s sp. symbols_of cfg [s] = Some (Spec sp) \<longrightarrow>
            2 * length (filter (\<lambda>r. symbol r = s) (annotate content cfg palette seed)) =
              count_list content s)"
proof -
  have e: "stack (final_state content cfg palette seed) = []"
    using assms by (rule well_nested_stack_empty)
  then have a: "annotate content cfg palette seed = ranges (final_state content cfg palette seed)"
    by (simp add: annotate_append)
  have "\<forall>r \<in> set (annotate content cfg palette seed). \<not> is_open r"
    unfolding a using final_closed_order [of content cfg palette seed] by blast
  moreover have "2 * length (filter (\<lambda>r. symbol r = s) (annotate content cfg palette seed)) =
      count_list content s" if "symbols_of cfg [s] = Some (Spec sp)" for s sp
    using scan_symbol_count [of "symbols_of cfg" s sp palette 0 content "init_state seed"] that e
    unfolding a by (simp add: final_state_def init_state_def)
  ultimately show ?thesis by blast
qed

lemma default_symbols_other:
  "c \<noteq> TRIANGLE \<Longrightarrow> c \<noteq> SQUARE \<Longrightarrow> c \<noteq> CIRCLE \<Longrightarrow> symbols_of buildDefaultConfig [c] = None"
  by (simp add: symbols_of_def buildDefaultConfig_def)

lemma letters_plain:
  "symbols_of buildDefaultConfig [0x78] = None"
  "symbols_of buildDefaultConfig [0x79] = None"
  "symbols_of buildDefaultConfig [0x7A] = None"
  by (simp_all add: default_symbols_other TRIANGLE_def SQUARE_def CIRCLE_def)

lemma nesting_example_well_nested:
  "well_nested (symbols_of buildDefaultConfig) [TRIANGLE, 0x78, SQUARE, 0x79, SQUARE, 0x7A, TRIANGLE]"
proof -
  let ?m = "symbols_of buildDefaultConfig"
  have y: "well_nested ?m [0x79]"
    by (rule wn_plain) (simp_all add: letters_plain wn_empty)
  have z: "well_nested ?m [0x7A]"
    by (rule wn_plain) (simp_all add: letters_plain wn_empty)
  have sq: "well_nested ?m (SQUARE # [0x79] @ SQUARE # [0x7A])"
    using default_symbols(2) y z by (rule wn_pair)
  have "well_nested ?m (0x78 # SQUARE # [0x79] @ SQUARE # [0x7A])"
  proof (rule wn_plain)
    show "\<nexists>sp. ?m [0x78] = Some (Spec sp)" by (simp add: letters_plain)
    show "well_nested ?m (SQUARE # [0x79] @ SQUARE # [0x7A])" by (rule sq)
  qed
  with default_symbols(1)
  have "well_nested ?m (TRIANGLE # (0x78 # SQUARE # [0x79] @ SQUARE # [0x7A]) @ TRIANGLE # [])"
    using wn_empty by (rule wn_pair)
  then show ?thesis by simp
qed

theorem C8_well_nested_all_closed_witness:
  "well_nested (symbols_of buildDefaultConfig) [TRIANGLE, 0x78, SQUARE, 0x79, SQUARE, 0x7A, TRIANGLE] \<and>
   filter is_open
     (annotate [TRIANGLE, 0x78, SQUARE, 0x79, SQUARE, 0x7A, TRIANGLE] buildDefaultConfig defaultPalette 0) = [] \<and>
   length (filter (\<lambda>r. symbol r = TRIANGLE)
     (annotate [TRIANGLE, 0x78, SQUARE, 0x79, SQUARE, 0x7A, TRIANGLE] buildDefaultConfig defaultPalette 0)) = 1 \<and>
   length (filter (\<lambda>r. symbol r = SQUARE)
     (annotate [TRIANGLE, 0x78, SQUARE, 0x79, SQUARE, 0x7A, TRIANGLE] buildDefaultConfig defaultPalette 0)) = 1"
proof -
  let ?w = "[TRIANGLE, 0x78, SQUARE, 0x79, SQUARE, 0x7A, TRIANGLE]"
  have t: "count_list ?w TRIANGLE = 2" and s: "count_list ?w SQUARE = 2"
    by (simp_all add: delimiters_distinct TRIANGLE_def SQUARE_def)
  from C8_well_nested_all_closed [OF nesting_example_well_nested, of defaultPalette 0]
  have "\<forall>r \<in> set (annotate ?w buildDefaultConfig defaultPalette 0). \<not> is_open r"
    and "2 * length (filter (\<lambda>r. symbol r = TRIANGLE) (annotate ?w buildDefaultConfig defaultPalette 0)) =
      count_list ?w TRIANGLE"
    and "2 * length (filter (\<lambda>r. symbol r = SQUARE) (annotate ?w buildDefaultConfig defaultPalette 0)) =
      count_list ?w SQUARE"
    using default_symbols by blast+
  then show ?thesis
    unfolding t s using nesting_example_well_nested by (simp add: filter_empty_conv)
qed


section \<open>Specifications without a usable color\<close>

lemma fallback_color:
  assumes "(kind sp = Some ''onoff'' \<and> spec_color sp = None) \<or>
           (kind sp \<noteq> Some ''onoff'' \<and> kind sp \<noteq> Some ''random'')"
  shows "fst (resolve_color pal sp st) = Str ''#CCCCCC''"
  using assms by (auto simp: resolve_color_def color_or_default_def Let_def)

lemma body_fallback:
  assumes "m [ch] = Some (Spec sp)"
    and "\<forall>st. fst (resolve_color pal sp st) = Str ''#CCCCCC''"
    and "\<forall>opn \<in> set (stack st). o_symbol opn = ch \<longrightarrow> o_color opn = Str ''#CCCCCC''"
    and "\<forall>r \<in> set (ranges st). symbol r = ch \<longrightarrow> color r = Str ''#CCCCCC''"
  shows "(\<forall>opn \<in> set (stack (body m pal i c st)). o_symbol opn = ch \<longrightarrow> o_color opn = Str ''#CCCCCC'') \<and>
         (\<forall>r \<in> set (ranges (body m pal i c st)). symbol r = ch \<longrightarrow> color r = Str ''#CCCCCC'')"
proof (cases rule: body_cases [of m c pal i st])
  case inert
  with assms(3,4) show ?thesis by auto
next
  case falsy
  with assms(3,4) show ?thesis by auto
next
  case (close sp' tp rest)
  with assms(3,4) show ?thesis by (auto simp: close_top_fields)
next
  case (opn sp')
  show ?thesis
  proof (cases "c = ch")
    case True
    with opn assms(1) have "sp' = sp" by simp
    with opn assms(2,3,4) show ?thesis
      by (auto simp: open_new_stack open_new_keeps)
  next
    case False
    with opn assms(3,4) show ?thesis
      by (auto simp: open_new_stack open_new_keeps)
  qed
qed

lemma scan_fallback:
  assumes "m [ch] = Some (Spec sp)"
    and "\<forall>st. fst (resolve_color pal sp st) = Str ''#CCCCCC''"
  shows "(\<forall>opn \<in> set (stack st). o_symbol opn = ch \<longrightarrow> o_color opn = Str ''#CCCCCC'') \<Longrightarrow>
         (\<forall>r \<in> set (ranges st). symbol r = ch \<longrightarrow> color r = Str ''#CCCCCC'') \<Longrightarrow>
         (\<forall>opn \<in> set (stack (scan m pal i content st)). o_symbol opn = ch \<longrightarrow> o_color opn = Str ''#CCCCCC'') \<and>
         (\<forall>r \<in> set (ranges (scan m pal i content st)). symbol r = ch \<longrightarrow> color r = Str ''#CCCCCC'')"
proof (induction content arbitrary: i st)
  case Nil
  then show ?case by simp
next
  case (Cons c rest)
  from body_fallback [of m ch sp pal st i c] assms Cons.prems
  have "\<forall>opn \<in> set (stack (body m pal i c st)). o_symbol opn = ch \<longrightarrow> o_color opn = Str ''#CCCCCC''"
    and "\<forall>r \<in> set (ranges (body m pal i c st)). symbol r = ch \<longrightarrow> color r = Str ''#CCCCCC''"
    by blast+
  from Cons.IH [OF this] show ?case by simp
qed

lemma annotate_fallback:
  assumes "symbols_of cfg [ch] = Some (Spec sp)"
    and "\<forall>st. fst (resolve_color palette sp st) = Str ''#CCCCCC''"
  shows "\<forall>r \<in> set (annotate content cfg palette seed). symbol r = ch \<longrightarrow> color r = Str ''#CCCCCC''"
proof -
  let ?st = "final_state content cfg palette seed"
  have "(\<forall>opn \<in> set (stack ?st). o_symbol opn = ch \<longrightarrow> o_color opn = Str ''#CCCCCC'') \<and>
      (\<forall>r \<in> set (ranges ?st). symbol r = ch \<longrightarrow> color r = Str ''#CCCCCC'')"
    using scan_fallback [of "symbols_of cfg" ch sp palette "init_state seed" 0 content] assms
    by (simp add: final_state_def init_state_def)
  then show ?thesis by (auto simp: annotate_append eof_range_def)
qed

text \<open>
  Claim C10. Let a configured symbol have a specification whose kind is \<open>onoff\<close> with no
  color, or whose kind is neither \<open>onoff\<close> nor \<open>random\<close>. An occurrence of the symbol
  closes the region on top of the stack when that region carries the same symbol, and opens
  a new one otherwise, as for every configured symbol; every region it opens has the color
  \<open>#CCCCCC\<close>, and so has every range of the symbol in the output.
\<close>

theorem C10_fallback_symbol:
  assumes "symbols_of cfg [ch] = Some (Spec sp)"
    and "(kind sp = Some ''onoff'' \<and> spec_color sp = None) \<or>
         (kind sp \<noteq> Some ''onoff'' \<and> kind sp \<noteq> Some ''random'')"
  shows "(\<forall>i st.
            (stack st \<noteq> [] \<and> o_symbol (hd (stack st)) = ch \<longrightarrow>
               stack (body (symbols_of cfg) palette i ch st) = tl (stack st) \<and>
               ranges (body (symbols_of cfg) palette i ch st) =
                 ranges st @
                 [\<lparr> symbol = ch, color = o_color (hd (stack st)), start = o_start (hd (stack st)),
                    end_pos = \<lparr> line = s_line st, col = s_col st, index = i \<rparr>,
                    is_open = False \<rparr>]) \<and>
            (\<not> (stack st \<noteq> [] \<and> o_symbol (hd (stack st)) = ch) \<longrightarrow>
               stack (body (symbols_of cfg) palette i ch st) =
                 \<lparr> o_symbol = ch, o_color = Str ''#CCCCCC'',
                   o_start = \<lparr> line = s_line st, col = s_col st, index = i \<rparr> \<rparr> # stack st \<and>
               ranges (body (symbols_of cfg) palette i ch st) = ranges st)) \<and>
         (\<forall>r \<in> set (annotate content cfg palette seed). symbol r = ch \<longrightarrow> color r = Str ''#CCCCCC'')"
proof -
  let ?m = "symbols_of cfg"
  have step: "(stack st \<noteq> [] \<and> o_symbol (hd (stack st)) = ch \<longrightarrow>
               stack (body ?m palette i ch st) = tl (stack st) \<and>
               ranges (body ?m palette i ch st) =
                 ranges st @
                 [\<lparr> symbol = ch, color = o_color (hd (stack st)), start = o_start (hd (stack st)),
                    end_pos = \<lparr> line = s_line st, col = s_col st, index = i \<rparr>,
                    is_open = False \<rparr>]) \<and>
            (\<not> (stack st \<noteq> [] \<and> o_symbol (hd (stack st)) = ch) \<longrightarrow>
               stack (body ?m palette i ch st) =
                 \<lparr> o_symbol = ch, o_color = Str ''#CCCCCC'',
                   o_start = \<lparr> line = s_line st, col = s_col st, index = i \<rparr> \<rparr> # stack st \<and>
               ranges (body ?m palette i ch st) = ranges st)" for i st
  proof (cases "stack st \<noteq> [] \<and> o_symbol (hd (stack st)) = ch")
    case True
    then obtain tp rest where st: "stack st = tp # rest" "o_symbol tp = ch"
      by (cases "stack st") auto
    show ?thesis
      using True st body_close [of ?m ch sp st tp rest palette i] assms(1)
      by (simp add: close_top_fields cursor_def)
  next
    case False
    then have "stack st = [] \<or> o_symbol (hd (stack st)) \<noteq> ch" by auto
    from body_open [of ?m ch sp st palette i] assms(1) this False
      fallback_color [OF assms(2), of palette st]
    show ?thesis
      by (simp add: open_new_stack open_new_keeps cursor_def)
  qed
  have "\<forall>st. fst (resolve_color palette sp st) = Str ''#CCCCCC''"
    using fallback_color [OF assms(2)] by blast
  with assms(1)
  have "\<forall>r \<in> set (annotate content cfg palette seed). symbol r = ch \<longrightarrow> color r = Str ''#CCCCCC''"
    by (rule annotate_fallback)
  with step show ?thesis by blast
qed

lemma fixed_config_symbols:
  "symbols_of fixed_config [TRIANGLE] = Some (Spec \<lparr> kind = Some ''fixed'', spec_color = Some ''#FF0000'' \<rparr>)"
  by (simp add: symbols_of_def fixed_config_def)

lemma fixed_config_run:
  "annotate [TRIANGLE, TRIANGLE, TRIANGLE] fixed_config defaultPalette 0 =
     [\<lparr> symbol = TRIANGLE, color = Str ''#CCCCCC'',
        start = \<lparr> line = 0, col = 0, index = 0 \<rparr>,
        end_pos = \<lparr> line = 0, col = 1, index = 1 \<rparr>, is_open = False \<rparr>,
      \<lparr> symbol = TRIANGLE, color = Str ''#CCCCCC'',
        start = \<lparr> line = 0, col = 2, index = 2 \<rparr>,
        end_pos = \<lparr> line = 0, col = 3, index = 3 \<rparr>, is_open = True \<rparr>]"
  by (simp add: annotate_def final_state_def init_state_0 body_def fixed_config_symbols open_new_def
      close_top_def resolve_color_def cursor_def eof_range_def)

theorem C10_fallback_symbol_witness:
  "annotate [TRIANGLE, TRIANGLE, TRIANGLE] fixed_config defaultPalette 0 =
     [\<lparr> symbol = TRIANGLE, color = Str ''#CCCCCC'',
        start = \<lparr> line = 0, col = 0, index = 0 \<rparr>,
        end_pos = \<lparr> line = 0, col = 1, index = 1 \<rparr>, is_open = False \<rparr>,
      \<lparr> symbol = TRIANGLE, color = Str ''#CCCCCC'',
        start = \<lparr> line = 0, col = 2, index = 2 \<rparr>,
        end_pos = \<lparr> line = 0, col = 3, index = 3 \<rparr>, is_open = True \<rparr>] \<and>
   list_all (\<lambda>r. color r = Str ''#CCCCCC'')
     (annotate [TRIANGLE, TRIANGLE, TRIANGLE] fixed_config defaultPalette 0)"
proof -
  have "(kind \<lparr> kind = Some ''fixed'', spec_color = Some ''#FF0000'' \<rparr> = Some ''onoff'' \<and>
         spec_color \<lparr> kind = Some ''fixed'', spec_color = Some ''#FF0000'' \<rparr> = None) \<or>
        (kind \<lparr> kind = Some ''fixed'', spec_color = Some ''#FF0000'' \<rparr> \<noteq> Some ''onoff'' \<and>
         kind \<lparr> kind = Some ''fixed'', spec_color = Some ''#FF0000'' \<rparr> \<noteq> Some ''random'')"
    by simp
  from C10_fallback_symbol [of fixed_config TRIANGLE _ defaultPalette "[TRIANGLE, TRIANGLE, TRIANGLE]" 0,
      OF fixed_config_symbols this]
  have "\<forall>r \<in> set (annotate [TRIANGLE, TRIANGLE, TRIANGLE] fixed_config defaultPalette 0).
      symbol r = TRIANGLE \<longrightarrow> color r = Str ''#CCCCCC''" by blast
  then show ?thesis unfolding fixed_config_run by simp
qed

section \<open>Totality and the empty palette\<close>

lemma bitlen_bounds: "n \<noteq> 0 \<Longrightarrow> 2 ^ (bitlen n - 1) \<le> n \<and> n < 2 ^ bitlen n"
proof (induction n rule: bitlen.induct)
  case (1 n)
  show ?case
  proof (cases "n div 2 = 0")
    case True
    with "1.prems" have "n = 1" by auto
    then show ?thesis by (simp add: bitlen.simps)
  next
    case False
    with "1.IH" "1.prems"
    have ih: "2 ^ (bitlen (n div 2) - 1) \<le> n div 2" "n div 2 < 2 ^ bitlen (n div 2)"
      by simp_all
    have pos: "bitlen (n div 2) \<noteq> 0"
      using False by (simp add: bitlen.simps [of "n div 2"])
    have b: "bitlen n = Suc (bitlen (n div 2))"
      using "1.prems" by (simp add: bitlen.simps [of n])
    from pos obtain k where k: "bitlen (n div 2) = Suc k" by (cases "bitlen (n div 2)") auto
    from ih k have "2 * 2 ^ k \<le> n" "n < 2 * 2 ^ Suc k" by auto
    with b k show ?thesis by simp
  qed
qed

lemma round53_le: "round53 x \<le> x + 2 ^ (bitlen x - 53)"
proof (cases "x < 2 ^ 53")
  case True
  then show ?thesis by (simp add: round53_def)
next
  case False
  define e where "e = bitlen x - 53"
  define q where "q = x div 2 ^ e"
  have a: "q * 2 ^ e \<le> x" by (simp add: q_def)
  then have b: "(q + 1) * 2 ^ e \<le> x + 2 ^ e"
    by (simp add: algebra_simps)
  from False have "round53 x = (q + 1) * 2 ^ e \<or> round53 x = q * 2 ^ e"
    by (simp add: round53_def Let_def e_def q_def)
  with a b show ?thesis unfolding e_def by (auto intro: trans_le_add1)
qed

lemma round53_mult_less:
  assumes "n < 2 ^ 32" and "0 < len"
  shows "round53 (n * len) < 2 ^ 32 * len"
proof -
  define x where "x = n * len"
  define B :: nat where "B = 2 ^ 32"
  from assms have "Suc n \<le> B" by (simp add: B_def)
  then have "Suc n * len \<le> B * len" by (rule mult_le_mono1)
  then have xl: "x + len \<le> B * len" by (simp add: x_def)
  show ?thesis
  proof (cases "x < 2 ^ 53")
    case True
    then have "round53 x = x" by (simp add: round53_def)
    with xl assms(2) show ?thesis by (simp add: x_def B_def)
  next
    case False
    have x0: "x \<noteq> 0"
    proof
      assume z: "x = 0"
      have "(0::nat) < 2 ^ 53" by simp
      then have "x < 2 ^ 53" by (simp only: z)
      with False show False by (rule notE)
    qed
    define e where "e = bitlen x - 53"
    from bitlen_bounds [OF x0] have lo: "2 ^ (bitlen x - 1) \<le> x" and hi: "x < 2 ^ bitlen x"
      by simp_all
    from False have "(2::nat) ^ 53 \<le> x" by (simp only: not_less)
    then have "(2::nat) ^ 53 < 2 ^ bitlen x" using hi by (rule le_less_trans)
    then have "53 < bitlen x" by (rule power_less_imp_less_exp [rotated]) simp
    then have "bitlen x - 1 = 32 + (20 + e)" by (simp add: e_def)
    with lo have "(2::nat) ^ (32 + (20 + e)) \<le> x" by (simp only:)
    then have "B * 2 ^ (20 + e) \<le> x" by (simp only: power_add B_def)
    also from xl assms(2) have "x < B * len" by linarith
    finally have "B * 2 ^ (20 + e) < B * len" .
    then have "(2::nat) ^ (20 + e) < len" by (simp only: mult_less_cancel1)
    moreover have "(2::nat) ^ e \<le> 2 ^ (20 + e)" by (rule power_increasing) simp_all
    ultimately have "2 ^ e < len" by (rule le_less_trans [rotated])
    with round53_le [of x] xl have "round53 x < B * len" unfolding e_def by linarith
    then show ?thesis by (simp only: x_def B_def)
  qed
qed

lemma mulberry32_step_bound: "snd (mulberry32_step t) < 2 ^ 32"
proof -
  have "unat (w :: 32 word) < 2 ^ 32" for w
    using unsigned_less [of w, where 'a = nat] by simp
  then show ?thesis by (simp add: mulberry32_step_def Let_def)
qed

lemma pick_index_in_range:
  assumes "0 < len"
  shows "round53 (snd (mulberry32_step t) * len) div 2 ^ 32 < len"
proof -
  have "round53 (snd (mulberry32_step t) * len) < 2 ^ 32 * len"
    using mulberry32_step_bound assms by (rule round53_mult_less)
  then have "round53 (snd (mulberry32_step t) * len) < len * 2 ^ 32"
    by (simp only: mult.commute)
  then show ?thesis by (rule less_mult_imp_div_less)
qed

lemma pickColor_defined: "\<exists>s. fst (pickColor t palette usedSet) = Str s"
proof (cases "palette = []")
  case True
  then show ?thesis by (simp add: pickColor_def)
next
  case False
  define arr where "arr = (if filter (\<lambda>c. Str c \<notin> usedSet) palette \<noteq> []
      then filter (\<lambda>c. Str c \<notin> usedSet) palette else palette)"
  from False have "0 < length arr" by (simp add: arr_def)
  then have i: "round53 (snd (mulberry32_step t) * length arr) div 2 ^ 32 < length arr"
    by (rule pick_index_in_range)
  obtain t' n where s: "mulberry32_step t = (t', n)" by (cases "mulberry32_step t")
  have "fst (pickColor t palette usedSet) = Str (arr ! (round53 (n * length arr) div 2 ^ 32))"
    using False i unfolding s arr_def
    by (simp only: pickColor_def Let_def s arr_def if_False if_True fst_conv snd_conv prod.case)
  then show ?thesis by blast
qed

lemma pickColor_empty: "pickColor t [] usedSet = (Str ''#CCCCCC'', usedSet, t)"
  by (simp add: pickColor_def)

lemma resolve_color_defined: "\<exists>s. fst (resolve_color palette sp st) = Str s"
  using pickColor_defined [of "rng_t st" palette "usedColors st"]
  by (simp add: resolve_color_def Let_def)

lemma random_empty_palette:
  "kind sp = Some ''random'' \<Longrightarrow> fst (resolve_color [] sp st) = Str ''#CCCCCC''"
  by (simp add: resolve_color_def pickColor_empty)

lemma body_well_formed:
  assumes "\<forall>opn \<in> set (stack st). (\<exists>s. o_color opn = Str s) \<and> index (o_start opn) < i"
    and "\<forall>r \<in> set (ranges st). (\<exists>s. color r = Str s) \<and> index (start r) < index (end_pos r)"
  shows "(\<forall>opn \<in> set (stack (body m pal i c st)). (\<exists>s. o_color opn = Str s) \<and> index (o_start opn) < Suc i) \<and>
         (\<forall>r \<in> set (ranges (body m pal i c st)). (\<exists>s. color r = Str s) \<and> index (start r) < index (end_pos r))"
proof (cases rule: body_cases [of m c pal i st])
  case inert
  with assms show ?thesis by (auto simp: less_Suc_eq)
next
  case falsy
  with assms show ?thesis by (auto simp: less_Suc_eq)
next
  case (close sp tp rest)
  with assms show ?thesis by (auto simp: close_top_fields cursor_def less_Suc_eq)
next
  case (opn sp)
  with assms resolve_color_defined [of pal sp st] show ?thesis
    by (auto simp: open_new_stack open_new_keeps cursor_def less_Suc_eq)
qed

lemma scan_well_formed:
  "(\<forall>opn \<in> set (stack st). (\<exists>s. o_color opn = Str s) \<and> index (o_start opn) < i) \<Longrightarrow>
   (\<forall>r \<in> set (ranges st). (\<exists>s. color r = Str s) \<and> index (start r) < index (end_pos r)) \<Longrightarrow>
   (\<forall>opn \<in> set (stack (scan m pal i content st)).
      (\<exists>s. o_color opn = Str s) \<and> index (o_start opn) < i + length content) \<and>
   (\<forall>r \<in> set (ranges (scan m pal i content st)).
      (\<exists>s. color r = Str s) \<and> index (start r) < index (end_pos r))"
proof (induction content arbitrary: i st)
  case Nil
  then show ?case by simp
next
  case (Cons c rest)
  from body_well_formed [OF Cons.prems, of m pal c]
  have "\<forall>opn \<in> set (stack (body m pal i c st)). (\<exists>s. o_color opn = Str s) \<and> index (o_start opn) < Suc i"
    and "\<forall>r \<in> set (ranges (body m pal i c st)). (\<exists>s. color r = Str s) \<and> index (start r) < index (end_pos r)"
    by blast+
  from Cons.IH [OF this] show ?case by simp
qed

lemma annotate_well_formed:
  "\<forall>r \<in> set (annotate content cfg palette seed).
     (\<exists>s. color r = Str s) \<and> index (start r) < index (end_pos r) \<and> index (end_pos r) \<le> length content"
proof -
  let ?st = "final_state content cfg palette seed"
  have wf: "(\<forall>opn \<in> set (stack ?st). (\<exists>s. o_color opn = Str s) \<and> index (o_start opn) < length content) \<and>
      (\<forall>r \<in> set (ranges ?st). (\<exists>s. color r = Str s) \<and> index (start r) < index (end_pos r))"
    using scan_well_formed [of "init_state seed" 0 "symbols_of cfg" palette content]
    by (simp add: final_state_def init_state_def)
  have "\<forall>r \<in> set (ranges ?st). index (end_pos r) < length content"
    using final_closed_order [of content cfg palette seed] by blast
  with wf show ?thesis
    by (auto simp: annotate_append eof_range_def cursor_def intro: less_imp_le)
qed

lemma scan_no_symbols:
  "stack (scan Map.empty pal i content st) = stack st \<and>
   ranges (scan Map.empty pal i content st) = ranges st"
  by (induction content arbitrary: i st) (simp_all add: body_inert)

lemma annotate_no_symbols:
  assumes "symbols_of cfg = Map.empty"
  shows "annotate content cfg palette seed = []"
  using scan_no_symbols [of palette 0 content "init_state seed"] assms
  by (simp add: annotate_append final_state_def init_state_def)

lemma annotate_empty_text: "annotate [] cfg palette seed = []"
  by (simp add: annotate_def final_state_def init_state_def)

text \<open>
  Claim C9. \<open>annotate\<close> returns a result for every input: the model has no error value
  because the source has no statement that can throw on a string, a symbol map and a
  palette, and the one read that could yield \<open>undefined\<close>, \<open>arr[idx]\<close>, always stays inside
  the array. With an empty palette \<open>pickColor\<close> returns the fixed color \<open>#CCCCCC\<close> and leaves
  the generator and the set of used colors alone, so every range of a \<open>random\<close> symbol has
  that color. The empty text and the empty symbol configuration give the empty list of
  ranges. In every result each range has a color that is a string, starts before it ends,
  and ends inside the text or at its end.
\<close>

theorem C9_total_with_fallback:
  "pickColor t [] usedSet = (Str ''#CCCCCC'', usedSet, t) \<and>
   (\<forall>r \<in> set (annotate content cfg [] seed).
      (\<exists>sp. symbols_of cfg [symbol r] = Some (Spec sp) \<and> kind sp = Some ''random'') \<longrightarrow>
      color r = Str ''#CCCCCC'') \<and>
   annotate [] cfg palette seed = [] \<and>
   (symbols_of cfg = Map.empty \<longrightarrow> annotate content cfg palette seed = []) \<and>
   (\<forall>r \<in> set (annotate content cfg palette seed).
      (\<exists>s. color r = Str s) \<and> index (start r) < index (end_pos r) \<and>
      index (end_pos r) \<le> length content)"
proof -
  have "color r = Str ''#CCCCCC''"
    if "r \<in> set (annotate content cfg [] seed)"
      and "symbols_of cfg [symbol r] = Some (Spec sp)" and "kind sp = Some ''random''" for r sp
    using annotate_fallback [of cfg "symbol r" sp "[]" content seed] that
    by (simp add: random_empty_palette)
  then show ?thesis
    using annotate_well_formed [of content cfg palette seed]
    by (auto simp: pickColor_empty annotate_empty_text annotate_no_symbols)
qed

theorem C9_total_with_fallback_witness:
  "annotate [SQUARE, CIRCLE, SQUARE] buildDefaultConfig [] 5 =
     [\<lparr> symbol = SQUARE, color = Str ''#CCCCCC'',
        start = \<lparr> line = 0, col = 2, index = 2 \<rparr>,
        end_pos = \<lparr> line = 0, col = 3, index = 3 \<rparr>, is_open = True \<rparr>,
      \<lparr> symbol = CIRCLE, color = Str ''#CCCCCC'',
        start = \<lparr> line = 0, col = 1, index = 1 \<rparr>,
        end_pos = \<lparr> line = 0, col = 3, index = 3 \<rparr>, is_open = True \<rparr>,
      \<lparr> symbol = SQUARE, color = Str ''#CCCCCC'',
        start = \<lparr> line = 0, col = 0, index = 0 \<rparr>,
        end_pos = \<lparr> line = 0, col = 3, index = 3 \<rparr>, is_open = True \<rparr>] \<and>
   list_all (\<lambda>r. color r = Str ''#CCCCCC'') (annotate [SQUARE, CIRCLE, SQUARE] buildDefaultConfig [] 5) \<and>
   annotate [] buildDefaultConfig [] 5 = [] \<and>
   annotate [SQUARE, CIRCLE, SQUARE] \<lparr> symbols = None \<rparr> [] 5 = []"
proof -
  have run: "annotate [SQUARE, CIRCLE, SQUARE] buildDefaultConfig [] 5 =
     [\<lparr> symbol = SQUARE, color = Str ''#CCCCCC'',
        start = \<lparr> line = 0, col = 2, index = 2 \<rparr>,
        end_pos = \<lparr> line = 0, col = 3, index = 3 \<rparr>, is_open = True \<rparr>,
      \<lparr> symbol = CIRCLE, color = Str ''#CCCCCC'',
        start = \<lparr> line = 0, col = 1, index = 1 \<rparr>,
        end_pos = \<lparr> line = 0, col = 3, index = 3 \<rparr>, is_open = True \<rparr>,
      \<lparr> symbol = SQUARE, color = Str ''#CCCCCC'',
        start = \<lparr> line = 0, col = 0, index = 0 \<rparr>,
        end_pos = \<lparr> line = 0, col = 3, index = 3 \<rparr>, is_open = True \<rparr>]"
    by (simp add: annotate_def final_state_def init_state_def run_simps pickColor_empty
        delimiters_distinct eof_range_def)
  have e: "symbols_of \<lparr> symbols = None \<rparr> = Map.empty"
    by (simp add: symbols_of_def)
  from C9_total_with_fallback [of _ _ "[SQUARE, CIRCLE, SQUARE]" buildDefaultConfig 5 "[]"]
  have a: "\<forall>r \<in> set (annotate [SQUARE, CIRCLE, SQUARE] buildDefaultConfig [] 5).
      (\<exists>sp. symbols_of buildDefaultConfig [symbol r] = Some (Spec sp) \<and> kind sp = Some ''random'') \<longrightarrow>
      color r = Str ''#CCCCCC''"
    and b: "annotate [] buildDefaultConfig [] 5 = []"
    by blast+
  from C9_total_with_fallback [of _ _ "[SQUARE, CIRCLE, SQUARE]" "\<lparr> symbols = None \<rparr>" 5 "[]"] e
  have c: "annotate [SQUARE, CIRCLE, SQUARE] \<lparr> symbols = None \<rparr> [] 5 = []"
    by blast
  from a b c show ?thesis unfolding run by (simp add: default_symbols)
qed

section \<open>A line feed configured as a delimiter\<close>

lemma NL_TRIANGLE_symbols:
  "symbols_of NL_TRIANGLE_config [NEWLINE] = Some (Spec \<lparr> kind = Some ''onoff'', spec_color = Some ''#FFE26A'' \<rparr>)"
  "symbols_of NL_TRIANGLE_config [TRIANGLE] = Some (Spec \<lparr> kind = Some ''onoff'', spec_color = Some ''#FFE26A'' \<rparr>)"
  "symbols_of NL_TRIANGLE_config [0x61] = None"
  by (simp_all add: symbols_of_def NL_TRIANGLE_config_def NEWLINE_def TRIANGLE_def)

lemma newline_triangle_distinct: "NEWLINE \<noteq> TRIANGLE" "TRIANGLE \<noteq> NEWLINE" "(0x61 :: cu) \<noteq> NEWLINE"
  by (simp_all add: NEWLINE_def TRIANGLE_def)

text \<open>
  Claim C7 at a line feed that is itself a configured symbol. The delimiter branch ends in
  \<open>col += 1; continue\<close> and never reaches the test \<open>ch === '\\n'\<close>, so the line counter is
  not incremented and the column is not reset: after the one-character text \<open>"\\n"\<close> the
  cursor is at line 0, column 1. Every later position is shifted with it: in the text
  \<open>"\\na\\n\<triangle>"\<close>, where the triangle is the first character of the third line, its range
  starts at line 0, column 3 when the line feed is configured, and at line 2, column 0 when
  it is not.
\<close>

theorem C7_newline_delimiter:
  "cursors (symbols_of NL_config) [] 0 [NEWLINE] (init_state 0) =
     [\<lparr> line = 0, col = 0, index = 0 \<rparr>, \<lparr> line = 0, col = 1, index = 1 \<rparr>] \<and>
   annotate [NEWLINE, 0x61, NEWLINE, TRIANGLE] NL_TRIANGLE_config [] 0 =
     [\<lparr> symbol = NEWLINE, color = Str ''#FFE26A'',
        start = \<lparr> line = 0, col = 0, index = 0 \<rparr>,
        end_pos = \<lparr> line = 0, col = 2, index = 2 \<rparr>, is_open = False \<rparr>,
      \<lparr> symbol = TRIANGLE, color = Str ''#FFE26A'',
        start = \<lparr> line = 0, col = 3, index = 3 \<rparr>,
        end_pos = \<lparr> line = 0, col = 4, index = 4 \<rparr>, is_open = True \<rparr>] \<and>
   annotate [NEWLINE, 0x61, NEWLINE, TRIANGLE] buildDefaultConfig [] 0 =
     [\<lparr> symbol = TRIANGLE, color = Str ''#FFE26A'',
        start = \<lparr> line = 2, col = 0, index = 3 \<rparr>,
        end_pos = \<lparr> line = 2, col = 1, index = 4 \<rparr>, is_open = True \<rparr>]"
proof -
  have a: "annotate [NEWLINE, 0x61, NEWLINE, TRIANGLE] NL_TRIANGLE_config [] 0 =
     [\<lparr> symbol = NEWLINE, color = Str ''#FFE26A'',
        start = \<lparr> line = 0, col = 0, index = 0 \<rparr>,
        end_pos = \<lparr> line = 0, col = 2, index = 2 \<rparr>, is_open = False \<rparr>,
      \<lparr> symbol = TRIANGLE, color = Str ''#FFE26A'',
        start = \<lparr> line = 0, col = 3, index = 3 \<rparr>,
        end_pos = \<lparr> line = 0, col = 4, index = 4 \<rparr>, is_open = True \<rparr>]"
    by (simp add: annotate_def final_state_def init_state_0 body_def NL_TRIANGLE_symbols
        newline_triangle_distinct open_new_def close_top_def resolve_color_def color_or_default_def
        cursor_def eof_range_def Let_def)
  have b: "annotate [NEWLINE, 0x61, NEWLINE, TRIANGLE] buildDefaultConfig [] 0 =
     [\<lparr> symbol = TRIANGLE, color = Str ''#FFE26A'',
        start = \<lparr> line = 2, col = 0, index = 3 \<rparr>,
        end_pos = \<lparr> line = 2, col = 1, index = 4 \<rparr>, is_open = True \<rparr>]"
    by (simp add: annotate_def final_state_def init_state_0 body_def default_symbols
        default_symbols_plain newline_triangle_distinct open_new_def close_top_def resolve_color_def
        color_or_default_def cursor_def eof_range_def Let_def)
  from cursors_newline_delimiter a b show ?thesis by (simp only: simp_thms)
qed

section \<open>Determinism\<close>

lemma mulberry32_call_deterministic: "deterministic_generator mulberry32_call"
  by (simp add: deterministic_generator_def mulberry32_call_def)

lemma pickColor_run_deterministic:
  assumes "deterministic_generator rand"
    and "pickColor_run rand t0 palette usedSet a" and "pickColor_run rand t0 palette usedSet b"
  shows "a = b"
  using assms(2)
proof cases
  case pick_fallback
  with assms(3) show ?thesis by cases simp_all
next
  case (pick_draw t n)
  from assms(3) show ?thesis
  proof cases
    case pick_fallback
    with pick_draw show ?thesis by simp
  next
    case (pick_draw t' n')
    with \<open>rand t0 (t, n)\<close> assms(1) have "(t, n) = (t', n')"
      unfolding deterministic_generator_def by blast
    with pick_draw \<open>a = _\<close> show ?thesis by simp
  qed
qed

lemma resolve_run_deterministic:
  assumes "deterministic_generator rand"
    and "resolve_run rand palette sp st a" and "resolve_run rand palette sp st b"
  shows "a = b"
  using assms(2)
proof cases
  case res_onoff
  with assms(3) show ?thesis by cases simp_all
next
  case res_random
  from assms(3) show ?thesis
  proof cases
    case res_onoff
    with res_random(1) show ?thesis by simp
  next
    case res_random
    with \<open>pickColor_run rand (rng_t st) palette (usedColors st) a\<close> assms(1)
    show ?thesis by (blast intro: pickColor_run_deterministic)
  next
    case res_other
    with res_random(1) show ?thesis by simp
  qed
next
  case res_other
  with assms(3) show ?thesis by cases simp_all
qed

lemma iteration_deterministic:
  assumes "deterministic_generator rand"
    and "iteration rand m palette i ch st a" and "iteration rand m palette i ch st b"
  shows "a = b"
  using assms(2)
proof cases
  case it_falsy
  with assms(3) show ?thesis by cases simp_all
next
  case (it_close sp tp rest)
  with assms(3) show ?thesis by cases auto
next
  case (it_open sp c used t)
  from assms(3) show ?thesis
  proof cases
    case it_falsy
    with it_open show ?thesis by simp
  next
    case (it_close sp' tp rest)
    with it_open show ?thesis by auto
  next
    case (it_open sp' c' used' t')
    with \<open>m [ch] = Some (Spec sp)\<close> have "sp' = sp" by simp
    with it_open have "resolve_run rand palette sp st (c', used', t')" by simp
    with assms(1) \<open>resolve_run rand palette sp st (c, used, t)\<close>
    have "(c, used, t) = (c', used', t')"
      by (rule resolve_run_deterministic)
    with it_open \<open>a = _\<close> show ?thesis by simp
  next
    case it_newline
    with it_open show ?thesis by simp
  next
    case it_plain
    with it_open show ?thesis by simp
  qed
next
  case it_newline
  with assms(3) show ?thesis by cases simp_all
next
  case it_plain
  with assms(3) show ?thesis by cases simp_all
qed

lemma loop_run_deterministic:
  assumes "deterministic_generator rand"
  shows "loop_run rand m palette i content st a \<Longrightarrow> loop_run rand m palette i content st b \<Longrightarrow> a = b"
proof (induction content arbitrary: i st)
  case Nil
  from Nil(1) have "a = st" by cases simp
  moreover from Nil(2) have "b = st" by cases simp
  ultimately show ?case by simp
next
  case (Cons ch rest)
  from Cons.prems(1) obtain s1 where a: "iteration rand m palette i ch st s1"
    "loop_run rand m palette (Suc i) rest s1 a" by cases auto
  from Cons.prems(2) obtain s2 where b: "iteration rand m palette i ch st s2"
    "loop_run rand m palette (Suc i) rest s2 b" by cases auto
  from assms a(1) b(1) have "s1 = s2" by (rule iteration_deterministic)
  with a(2) b(2) show ?case by (auto intro: Cons.IH)
qed

lemma run_with_deterministic:
  assumes "deterministic_generator rand"
    and "run_with rand t0 content cfg palette r1" and "run_with rand t0 content cfg palette r2"
  shows "r1 = r2"
proof -
  let ?s0 = "\<lparr> s_line = 0, s_col = 0, stack = [], ranges = [], usedColors = {}, rng_t = t0 \<rparr>"
  from assms(2) obtain s1 where 1: "loop_run rand (symbols_of cfg) palette 0 content ?s0 s1"
    "r1 = drain (cursor s1 (length content)) (stack s1) (ranges s1)" by cases auto
  from assms(3) obtain s2 where 2: "loop_run rand (symbols_of cfg) palette 0 content ?s0 s2"
    "r2 = drain (cursor s2 (length content)) (stack s2) (ranges s2)" by cases auto
  from assms(1) 1(1) 2(1) have "s1 = s2" by (rule loop_run_deterministic)
  with 1(2) 2(2) show ?thesis by simp
qed

lemma pickColor_run_mulberry32: "pickColor_run mulberry32_call t0 palette usedSet (pickColor t0 palette usedSet)"
proof (cases "palette = []")
  case True
  then show ?thesis by (simp add: pickColor_def pick_fallback)
next
  case False
  obtain t n where s: "mulberry32_step t0 = (t, n)" by (cases "mulberry32_step t0")
  then have "mulberry32_call t0 (t, n)" by (simp add: mulberry32_call_def)
  with False
  have "pickColor_run mulberry32_call t0 palette usedSet
      (pick_from n palette usedSet, insert (pick_from n palette usedSet) usedSet, t)"
    by (rule pick_draw)
  moreover have "pickColor t0 palette usedSet =
      (pick_from n palette usedSet, insert (pick_from n palette usedSet) usedSet, t)"
    using False by (simp add: pickColor_def pick_from_def s Let_def)
  ultimately show ?thesis by simp
qed

lemma resolve_run_mulberry32: "resolve_run mulberry32_call palette sp st (resolve_color palette sp st)"
proof -
  consider "kind sp = Some ''onoff''" | "kind sp = Some ''random''"
    | "kind sp \<noteq> Some ''onoff''" "kind sp \<noteq> Some ''random''" by blast
  then show ?thesis
  proof cases
    case 1
    then show ?thesis
      using res_onoff [of sp mulberry32_call palette st] by (simp add: resolve_color_def Let_def)
  next
    case 2
    have "resolve_color palette sp st = pickColor (rng_t st) palette (usedColors st)"
      using 2 by (simp add: resolve_color_def)
    moreover from 2 pickColor_run_mulberry32
    have "resolve_run mulberry32_call palette sp st (pickColor (rng_t st) palette (usedColors st))"
      by (rule res_random)
    ultimately show ?thesis by simp
  next
    case 3
    then show ?thesis
      using res_other [of sp mulberry32_call palette st] by (simp add: resolve_color_def)
  qed
qed

lemma iteration_mulberry32: "iteration mulberry32_call m palette i ch st (body m palette i ch st)"
proof (cases rule: body_cases [of m ch palette i st])
  case inert
  then show ?thesis
    using it_newline [of m ch mulberry32_call palette i st] it_plain [of m ch mulberry32_call palette i st]
    by (cases "ch = NEWLINE") simp_all
next
  case falsy
  then show ?thesis using it_falsy [of m ch mulberry32_call palette i st] by simp
next
  case (close sp tp rest)
  then show ?thesis using it_close [of m ch sp st tp rest mulberry32_call palette i] by simp
next
  case (opn sp)
  obtain c used t where r: "resolve_color palette sp st = (c, used, t)"
    by (cases "resolve_color palette sp st")
  with resolve_run_mulberry32 [of palette sp st]
  have "resolve_run mulberry32_call palette sp st (c, used, t)" by simp
  with opn(1,2)
  have "iteration mulberry32_call m palette i ch st
      (st \<lparr> stack := \<lparr> o_symbol = ch, o_color = c, o_start = cursor st i \<rparr> # stack st,
            usedColors := used, rng_t := t, s_col := s_col st + 1 \<rparr>)"
    by (rule it_open)
  moreover have "body m palette i ch st =
      st \<lparr> stack := \<lparr> o_symbol = ch, o_color = c, o_start = cursor st i \<rparr> # stack st,
            usedColors := used, rng_t := t, s_col := s_col st + 1 \<rparr>"
    using opn(3) by (simp add: open_new_def r)
  ultimately show ?thesis by simp
qed

lemma loop_run_mulberry32: "loop_run mulberry32_call m palette i content st (scan m palette i content st)"
proof (induction content arbitrary: i st)
  case Nil
  show ?case by (simp add: loop_done)
next
  case (Cons ch rest)
  from iteration_mulberry32 [of m palette i ch st] Cons [of "Suc i" "body m palette i ch st"]
  show ?case by (simp add: loop_step)
qed

lemma annotate_run_exists: "annotate_run content cfg palette seed (annotate content cfg palette seed)"
proof -
  have "run_with mulberry32_call (mulberry32 seed) content cfg palette
      (drain (cursor (final_state content cfg palette seed) (length content))
         (stack (final_state content cfg palette seed)) (ranges (final_state content cfg palette seed)))"
    unfolding final_state_def init_state_def
    by (rule run_result) (rule loop_run_mulberry32)
  then show ?thesis by (simp add: annotate_run_def annotate_def Let_def)
qed

text \<open>
  Claim C1. Two invocations of \<open>annotate\<close> on the same text, symbol configuration, palette
  and seed return the same list of ranges, which is the value of the function \<open>annotate\<close>:
  the only source of random numbers in a run is the closure seeded with \<open>seed >>> 0\<close>, and
  that closure allows a single outcome per call.
\<close>

theorem C1_deterministic:
  assumes "annotate_run content cfg palette seed r1" and "annotate_run content cfg palette seed r2"
  shows "r1 = r2 \<and> r2 = annotate content cfg palette seed"
proof -
  have d: "a = b" if "annotate_run content cfg palette seed a" "annotate_run content cfg palette seed b" for a b
    using mulberry32_call_deterministic that unfolding annotate_run_def
    by (rule run_with_deterministic)
  from d [OF assms] d [OF assms(2) annotate_run_exists] show ?thesis by simp
qed

theorem C1_deterministic_witness:
  "annotate_run [TRIANGLE, SQUARE, SQUARE, CIRCLE] buildDefaultConfig defaultPalette 0
     [\<lparr> symbol = SQUARE, color = Str ''#64D6E2'',
        start = \<lparr> line = 0, col = 1, index = 1 \<rparr>,
        end_pos = \<lparr> line = 0, col = 2, index = 2 \<rparr>, is_open = False \<rparr>,
      \<lparr> symbol = CIRCLE, color = Str ''#FF6B6B'',
        start = \<lparr> line = 0, col = 3, index = 3 \<rparr>,
        end_pos = \<lparr> line = 0, col = 4, index = 4 \<rparr>, is_open = True \<rparr>,
      \<lparr> symbol = TRIANGLE, color = Str ''#FFE26A'',
        start = \<lparr> line = 0, col = 0, index = 0 \<rparr>,
        end_pos = \<lparr> line = 0, col = 4, index = 4 \<rparr>, is_open = True \<rparr>] \<and>
   annotate_run [TRIANGLE, SQUARE, SQUARE, CIRCLE] buildDefaultConfig defaultPalette 0
     (annotate [TRIANGLE, SQUARE, SQUARE, CIRCLE] buildDefaultConfig defaultPalette 0) \<and>
   [\<lparr> symbol = SQUARE, color = Str ''#64D6E2'',
        start = \<lparr> line = 0, col = 1, index = 1 \<rparr>,
        end_pos = \<lparr> line = 0, col = 2, index = 2 \<rparr>, is_open = False \<rparr>,
      \<lparr> symbol = CIRCLE, color = Str ''#FF6B6B'',
        start = \<lparr> line = 0, col = 3, index = 3 \<rparr>,
        end_pos = \<lparr> line = 0, col = 4, index = 4 \<rparr>, is_open = True \<rparr>,
      \<lparr> symbol = TRIANGLE, color = Str ''#FFE26A'',
        start = \<lparr> line = 0, col = 0, index = 0 \<rparr>,
        end_pos = \<lparr> line = 0, col = 4, index = 4 \<rparr>, is_open = True \<rparr>] =
   annotate [TRIANGLE, SQUARE, SQUARE, CIRCLE] buildDefaultConfig defaultPalette 0"
proof -
  let ?x = "[TRIANGLE, SQUARE, SQUARE, CIRCLE]"
  let ?r = "[\<lparr> symbol = SQUARE, color = Str ''#64D6E2'',
        start = \<lparr> line = 0, col = 1, index = 1 \<rparr>,
        end_pos = \<lparr> line = 0, col = 2, index = 2 \<rparr>, is_open = False \<rparr>,
      \<lparr> symbol = CIRCLE, color = Str ''#FF6B6B'',
        start = \<lparr> line = 0, col = 3, index = 3 \<rparr>,
        end_pos = \<lparr> line = 0, col = 4, index = 4 \<rparr>, is_open = True \<rparr>,
      \<lparr> symbol = TRIANGLE, color = Str ''#FFE26A'',
        start = \<lparr> line = 0, col = 0, index = 0 \<rparr>,
        end_pos = \<lparr> line = 0, col = 4, index = 4 \<rparr>, is_open = True \<rparr>]"
  have e: "annotate_run ?x buildDefaultConfig defaultPalette 0 (annotate ?x buildDefaultConfig defaultPalette 0)"
    by (rule annotate_run_exists)
  have "annotate ?x buildDefaultConfig defaultPalette 0 = ?r"
    by (simp add: annotate_append final_state_example eof_range_def cursor_def)
  with e have r: "annotate_run ?x buildDefaultConfig defaultPalette 0 ?r" by simp
  from C1_deterministic [OF r e] r e show ?thesis by simp
qed

text \<open>
  With a source of system entropy in place of the seeded closure the same invocation can
  return different results, so the dependence on the source is real.
\<close>

lemma pick_from_two_colors:
  "pick_from 0 two_colors {} = Str ''#000000''"
  "pick_from 2147483648 two_colors {} = Str ''#FFFFFF''"
  by (simp_all add: pick_from_def two_colors_def round53_def)

lemma entropy_run:
  assumes "n < 2 ^ 32"
  shows "run_with entropy_call 0 [SQUARE] buildDefaultConfig two_colors
           [\<lparr> symbol = SQUARE, color = pick_from n two_colors {},
              start = \<lparr> line = 0, col = 0, index = 0 \<rparr>,
              end_pos = \<lparr> line = 0, col = 1, index = 1 \<rparr>, is_open = True \<rparr>]"
proof -
  let ?s0 = "\<lparr> s_line = 0, s_col = 0, stack = [], ranges = [], usedColors = {}, rng_t = 0 \<rparr>"
  let ?c = "pick_from n two_colors {}"
  let ?s1 = "?s0 \<lparr> stack := \<lparr> o_symbol = SQUARE, o_color = ?c, o_start = cursor ?s0 0 \<rparr> # stack ?s0,
                    usedColors := insert ?c {}, rng_t := 0, s_col := s_col ?s0 + 1 \<rparr>"
  have "entropy_call 0 (0, n)" using assms by (simp add: entropy_call_def)
  then have "pickColor_run entropy_call 0 two_colors {} (?c, insert ?c {}, 0)"
    by (intro pick_draw) (simp_all add: two_colors_def)
  then have "resolve_run entropy_call two_colors \<lparr> kind = Some ''random'', spec_color = None \<rparr> ?s0
      (?c, insert ?c {}, 0)"
    by (intro res_random) simp_all
  then have "iteration entropy_call (symbols_of buildDefaultConfig) two_colors 0 SQUARE ?s0 ?s1"
    by (intro it_open [where sp = "\<lparr> kind = Some ''random'', spec_color = None \<rparr>"])
      (simp_all add: default_symbols)
  then have "loop_run entropy_call (symbols_of buildDefaultConfig) two_colors 0 [SQUARE] ?s0 ?s1"
    by (intro loop_step [where ?st1.0 = ?s1] loop_done)
  then have "run_with entropy_call 0 [SQUARE] buildDefaultConfig two_colors
      (drain (cursor ?s1 (length [SQUARE])) (stack ?s1) (ranges ?s1))"
    by (rule run_result)
  then show ?thesis by (simp add: eof_range_def cursor_def)
qed

lemma entropy_runs_differ:
  "\<exists>r1 r2. run_with entropy_call 0 [SQUARE] buildDefaultConfig two_colors r1 \<and>
           run_with entropy_call 0 [SQUARE] buildDefaultConfig two_colors r2 \<and> r1 \<noteq> r2"
proof -
  have "run_with entropy_call 0 [SQUARE] buildDefaultConfig two_colors
           [\<lparr> symbol = SQUARE, color = Str ''#000000'',
              start = \<lparr> line = 0, col = 0, index = 0 \<rparr>,
              end_pos = \<lparr> line = 0, col = 1, index = 1 \<rparr>, is_open = True \<rparr>]"
    using entropy_run [of 0] by (simp add: pick_from_two_colors)
  moreover have "run_with entropy_call 0 [SQUARE] buildDefaultConfig two_colors
           [\<lparr> symbol = SQUARE, color = Str ''#FFFFFF'',
              start = \<lparr> line = 0, col = 0, index = 0 \<rparr>,
              end_pos = \<lparr> line = 0, col = 1, index = 1 \<rparr>, is_open = True \<rparr>]"
    using entropy_run [of 2147483648] by (simp add: pick_from_two_colors)
  ultimately show ?thesis by (intro exI conjI) (assumption, assumption, simp)
qed

end
